theory Spec2Isabelle
  imports Complex_Main "HOL-Library.Log_Nat"
begin

section \<open>Python strings and the Unicode character database\<close>

text \<open>
  A Python \<open>str\<close> is a sequence of Unicode code points, so a string is modelled as a
  list of code points (natural numbers), and \<open>len\<close> is \<open>length\<close>. ASCII literals of
  the source are written with \<open>asc\<close>; literals with Vietnamese letters are written as
  their code points (the source file is in NFC), with the source text in a comment.
\<close>

type_synonym cp = nat
type_synonym ustr = "cp list"

definition asc :: "string \<Rightarrow> ustr" where
  "asc s = map of_char s"

section \<open>Floats\<close>

text \<open>
  A Python \<open>float\<close> is an IEEE 754 binary64 number. \<open>dbl\<close> has the values of a float
  that are numbers: a finite one is the rational it denotes (always a multiple of a power
  of two with at most 53 significant bits), and there are the two infinities. The float
  that is not a number is kept apart (\<open>PNaN\<close> below), and the sign of a zero is not
  modelled: the salary code only reads digits and multiplies by a positive constant, so
  it produces neither.
\<close>

datatype dbl = Finite rat | PosInf | NegInf

text \<open>\<open>x <= y\<close> on floats.\<close>

fun dle :: "dbl \<Rightarrow> dbl \<Rightarrow> bool" where
  "dle NegInf y = True"
| "dle x PosInf = True"
| "dle (Finite a) (Finite b) = (a \<le> b)"
| "dle x y = False"

text \<open>The nearest integer, a tie going to the even one.\<close>

definition round_half_even :: "rat \<Rightarrow> int" where
  "round_half_even x =
     (let f = \<lfloor>x\<rfloor>; d = x - of_int f in
      if d < 1 / 2 then f else if 1 / 2 < d then f + 1 else if even f then f else f + 1)"

text \<open>
  The binary exponent of a positive rational: \<open>2 powi binade x \<le> x < 2 powi (binade x + 1)\<close>
  (lemma \<open>binade_bounds\<close>). \<open>floorlog 2 n\<close> is the number of binary digits of \<open>n\<close>.
\<close>

definition binade :: "rat \<Rightarrow> int" where
  "binade x = (if 1 \<le> x then int (floorlog 2 (nat \<lfloor>x\<rfloor>)) - 1
               else - int (floorlog 2 (nat \<lceil>1 / x\<rceil> - 1)))"

text \<open>
  A positive rational rounded to 53 significant bits, or to a multiple of the least
  subnormal \<open>2 powi - 1074\<close> when it is that small: the spacing of the floats around
  \<open>x\<close> is \<open>2 powi q\<close>.
\<close>

definition round_magnitude :: "rat \<Rightarrow> rat" where
  "round_magnitude x =
     (let q = max (binade x - 52) (- 1074)
      in of_int (round_half_even (x / 2 powi q)) * 2 powi q)"

text \<open>
  The float nearest to a rational, ties to even, as the interpreter rounds a decimal
  literal read by \<open>float\<close> and the exact result of an arithmetic operation: what rounds
  to \<open>2 ^ 1024\<close> or beyond is an infinity.
\<close>

definition nearest_double :: "rat \<Rightarrow> dbl" where
  "nearest_double x =
     (if x = 0 then Finite 0
      else if 0 < x
      then (let v = round_magnitude x in if 2 ^ 1024 \<le> v then PosInf else Finite v)
      else (let v = round_magnitude (- x) in if 2 ^ 1024 \<le> v then NegInf else Finite (- v)))"

text \<open>
  \<open>x * mult\<close> for a float \<open>x\<close> and a positive finite float \<open>mult\<close> given by its value:
  the exact product rounded to the nearest float; an infinity times a positive number
  is that infinity.
\<close>

definition float_mul :: "dbl \<Rightarrow> rat \<Rightarrow> dbl" where
  "float_mul x mult =
     (case x of Finite v \<Rightarrow> nearest_double (v * mult) | PosInf \<Rightarrow> PosInf | NegInf \<Rightarrow> NegInf)"

text \<open>
  The values a cell of the input table may hold; \<open>isinstance(text, str)\<close> is the
  test for \<open>PStr\<close>. \<open>PNaN\<close> is the float that is not a number, which is what
  a missing cell of a table is. \<open>PObject\<close> stands for any object of another type.
\<close>

datatype pyval = PNone | PStr ustr | PInt int | PFloat dbl | PNaN | PBool bool | PObject nat

text \<open>
  The functions of the interpreter and of its libraries that the source calls and that
  depend on the Unicode character database, on the printing of numbers or on pandas are
  parameters of the model: \<open>str.isspace\<close> (also \<open>\s\<close> of \<open>re\<close> and the set
  \<open>str.strip\<close> removes), the decimal digits (\<open>\d\<close>) and their values (as \<open>float\<close>
  reads them), the alphanumerics (\<open>\w\<close> is an alphanumeric or the underscore),
  \<open>str.lower\<close> (on whole strings: it may change the length), the comparison of a
  pattern character and a text character under \<open>re.I\<close>, \<open>unicodedata.normalize("NFD", _)\<close>,
  the test \<open>unicodedata.category(ch) == "Mn"\<close>, \<open>str(v)\<close> of a value that is no
  string, and \<open>pd.to_numeric(column, errors="coerce")\<close>.
\<close>

record pylib =
  isspace :: "cp \<Rightarrow> bool"
  isdecimal :: "cp \<Rightarrow> bool"
  decimal_value :: "cp \<Rightarrow> nat"
  isalnum :: "cp \<Rightarrow> bool"
  str_lower :: "ustr \<Rightarrow> ustr"
  ci_equal :: "cp \<Rightarrow> cp \<Rightarrow> bool"
  normalize_nfd :: "ustr \<Rightarrow> ustr"
  is_mn :: "cp \<Rightarrow> bool"
  str_of_value :: "pyval \<Rightarrow> ustr"
  to_numeric :: "pyval list \<Rightarrow> pyval list"

text \<open>Comma and full stop are not decimal digits.\<close>

definition wf_lib :: "pylib \<Rightarrow> bool" where
  "wf_lib U = (\<not> isdecimal U 44 \<and> \<not> isdecimal U 46)"

subsection \<open>A database for ASCII and Vietnamese text\<close>

text \<open>
  The whitespace set is the interpreter's. Digits and alphanumerics are those of ASCII,
  Latin-1 and the Vietnamese letters; lower-casing covers the same letters. The
  decomposition is the identity and no character is a combining mark, which is right
  for ASCII text; \<open>str\<close> covers \<open>None\<close>, the booleans and the missing float, and
  \<open>to_numeric\<close> keeps numbers and turns everything else into the missing float. This
  instance is what concrete inputs are evaluated with.
\<close>

definition vn_isspace :: "cp \<Rightarrow> bool" where
  "vn_isspace c = ((9 \<le> c \<and> c \<le> 13) \<or> (28 \<le> c \<and> c \<le> 32) \<or> c = 133 \<or> c = 160
     \<or> c = 5760 \<or> (8192 \<le> c \<and> c \<le> 8202) \<or> c = 8232 \<or> c = 8233 \<or> c = 8239
     \<or> c = 8287 \<or> c = 12288)"

definition vn_isdecimal :: "cp \<Rightarrow> bool" where
  "vn_isdecimal c = (48 \<le> c \<and> c \<le> 57)"

definition vn_isupper :: "cp \<Rightarrow> bool" where
  "vn_isupper c = ((65 \<le> c \<and> c \<le> 90) \<or> (192 \<le> c \<and> c \<le> 222 \<and> c \<noteq> 215))"

definition vn_paired_upper :: "cp \<Rightarrow> bool" where
  "vn_paired_upper c = (c \<in> set [258, 272, 296, 360, 416, 431]
     \<or> (7840 \<le> c \<and> c \<le> 7929 \<and> even c))"

definition vn_lower1 :: "cp \<Rightarrow> cp" where
  "vn_lower1 c = (if vn_isupper c then c + 32 else if vn_paired_upper c then c + 1 else c)"

definition vn_isalnum :: "cp \<Rightarrow> bool" where
  "vn_isalnum c = ((48 \<le> c \<and> c \<le> 57) \<or> (65 \<le> c \<and> c \<le> 90) \<or> (97 \<le> c \<and> c \<le> 122)
     \<or> (192 \<le> c \<and> c \<le> 255 \<and> c \<noteq> 215 \<and> c \<noteq> 247)
     \<or> (258 \<le> c \<and> c \<le> 259) \<or> (272 \<le> c \<and> c \<le> 273) \<or> (296 \<le> c \<and> c \<le> 297)
     \<or> (360 \<le> c \<and> c \<le> 361) \<or> (416 \<le> c \<and> c \<le> 417) \<or> (431 \<le> c \<and> c \<le> 432)
     \<or> (7840 \<le> c \<and> c \<le> 7929))"

definition vn_str_of_value :: "pyval \<Rightarrow> ustr" where
  "vn_str_of_value v =
     (case v of
        PStr s \<Rightarrow> s
      | PNone \<Rightarrow> asc ''None''
      | PNaN \<Rightarrow> asc ''nan''
      | PBool b \<Rightarrow> (if b then asc ''True'' else asc ''False'')
      | _ \<Rightarrow> [])"

definition vn_to_numeric :: "pyval list \<Rightarrow> pyval list" where
  "vn_to_numeric vs =
     map (\<lambda>v. case v of PFloat r \<Rightarrow> PFloat r | PInt i \<Rightarrow> PInt i | _ \<Rightarrow> PNaN) vs"

definition vn_lib :: pylib where
  "vn_lib = \<lparr> isspace = vn_isspace, isdecimal = vn_isdecimal,
     decimal_value = (\<lambda>c. c - 48), isalnum = vn_isalnum,
     str_lower = map vn_lower1, ci_equal = (\<lambda>p c. vn_lower1 c = vn_lower1 p),
     normalize_nfd = (\<lambda>s. s), is_mn = (\<lambda>c. False),
     str_of_value = vn_str_of_value, to_numeric = vn_to_numeric \<rparr>"

subsection \<open>String methods\<close>

definition strip :: "pylib \<Rightarrow> ustr \<Rightarrow> ustr" where
  "strip U s = rev (dropWhile (isspace U) (rev (dropWhile (isspace U) s)))"

definition startswith :: "ustr \<Rightarrow> ustr \<Rightarrow> bool" where
  "startswith s p = (take (length p) s = p)"

text \<open>\<open>contains needle hay\<close> is Python's \<open>needle in hay\<close>.\<close>

fun contains :: "ustr \<Rightarrow> ustr \<Rightarrow> bool" where
  "contains n [] = (n = [])"
| "contains n (c # cs) = (startswith (c # cs) n \<or> contains n cs)"

text \<open>
  \<open>str.replace(old, new)\<close> for a non-empty \<open>old\<close> (every call of the source has
  one): left to right, without overlap. The fuel is the length of the text.
\<close>

fun replace_fuel :: "nat \<Rightarrow> ustr \<Rightarrow> ustr \<Rightarrow> ustr \<Rightarrow> ustr" where
  "replace_fuel 0 old new s = s"
| "replace_fuel (Suc k) old new [] = []"
| "replace_fuel (Suc k) old new (c # cs) =
     (if old \<noteq> [] \<and> startswith (c # cs) old
      then new @ replace_fuel k old new (drop (length old) (c # cs))
      else c # replace_fuel k old new cs)"

definition replace :: "ustr \<Rightarrow> ustr \<Rightarrow> ustr \<Rightarrow> ustr" where
  "replace old new s = replace_fuel (length s) old new s"

text \<open>\<open>s.split(sep)\<close> for a one-character separator: the pieces, empty ones included.\<close>

fun split_chr :: "cp \<Rightarrow> ustr \<Rightarrow> ustr \<Rightarrow> ustr list" where
  "split_chr sep acc [] = [rev acc]"
| "split_chr sep acc (c # cs) =
     (if c = sep then rev acc # split_chr sep [] cs else split_chr sep (c # acc) cs)"

fun join :: "ustr \<Rightarrow> ustr list \<Rightarrow> ustr" where
  "join sep [] = []"
| "join sep [x] = x"
| "join sep (x # xs) = x @ sep @ join sep xs"

section \<open>Regular expressions\<close>

text \<open>
  The patterns of the source are written as syntax trees, and \<open>re\<close> is modelled by a
  backtracking matcher that returns every way a pattern matches at a position, in the
  order in which \<open>re\<close> tries them (greedy repetition first, alternatives left to right):
  the head of the list is the match \<open>re\<close> reports. A position is the character before
  it (none at the start), the rest of the text and the groups captured so far.
\<close>

datatype citem = CChr cp | CDigit | CSpace | CWord

datatype rx =
    Lit cp
  | LitI cp
  | Dig
  | Spc
  | Dot
  | Cls "citem list"
  | NCls "citem list"
  | WordB
  | Bol
  | Eol
  | Eps
  | Seq rx rx
  | Alt rx rx
  | Star rx
  | Opt rx
  | Grp nat rx

type_synonym mstate = "cp option \<times> ustr \<times> (nat \<rightharpoonup> ustr)"

definition is_word :: "pylib \<Rightarrow> cp \<Rightarrow> bool" where
  "is_word U c = (isalnum U c \<or> c = 95)"

fun citem_match :: "pylib \<Rightarrow> citem \<Rightarrow> cp \<Rightarrow> bool" where
  "citem_match U (CChr x) c = (c = x)"
| "citem_match U CDigit c = isdecimal U c"
| "citem_match U CSpace c = isspace U c"
| "citem_match U CWord c = is_word U c"

definition step_chr :: "(cp \<Rightarrow> bool) \<Rightarrow> mstate \<Rightarrow> mstate list" where
  "step_chr P st = (case st of (p, s, g) \<Rightarrow>
     (case s of [] \<Rightarrow> [] | c # cs \<Rightarrow> if P c then [(Some c, cs, g)] else []))"

definition word_before :: "pylib \<Rightarrow> cp option \<Rightarrow> bool" where
  "word_before U p = (case p of None \<Rightarrow> False | Some c \<Rightarrow> is_word U c)"

definition word_after :: "pylib \<Rightarrow> ustr \<Rightarrow> bool" where
  "word_after U s = (case s of [] \<Rightarrow> False | c # _ \<Rightarrow> is_word U c)"

text \<open>
  Greedy repetition: as many rounds as possible first, each round consuming at least
  one character (no repeated pattern of the source matches the empty string), zero
  rounds last. The fuel is the length of the remaining text.
\<close>

primrec iter :: "nat \<Rightarrow> (mstate \<Rightarrow> mstate list) \<Rightarrow> mstate \<Rightarrow> mstate list" where
  "iter 0 f st = [st]"
| "iter (Suc n) f st =
     concat (map (iter n f)
       (filter (\<lambda>st'. length (fst (snd st')) < length (fst (snd st))) (f st))) @ [st]"

primrec rmatch :: "pylib \<Rightarrow> rx \<Rightarrow> mstate \<Rightarrow> mstate list" where
  "rmatch U (Lit x) st = step_chr (\<lambda>c. c = x) st"
| "rmatch U (LitI x) st = step_chr (\<lambda>c. ci_equal U x c) st"
| "rmatch U Dig st = step_chr (isdecimal U) st"
| "rmatch U Spc st = step_chr (isspace U) st"
| "rmatch U Dot st = step_chr (\<lambda>c. c \<noteq> 10) st"
| "rmatch U (Cls items) st = step_chr (\<lambda>c. list_ex (\<lambda>i. citem_match U i c) items) st"
| "rmatch U (NCls items) st = step_chr (\<lambda>c. \<not> list_ex (\<lambda>i. citem_match U i c) items) st"
| "rmatch U WordB st =
     (if word_before U (fst st) \<noteq> word_after U (fst (snd st)) then [st] else [])"
| "rmatch U Bol st = (if fst st = None then [st] else [])"
| "rmatch U Eol st = (if fst (snd st) = [] \<or> fst (snd st) = [10] then [st] else [])"
| "rmatch U Eps st = [st]"
| "rmatch U (Seq a b) st = concat (map (rmatch U b) (rmatch U a st))"
| "rmatch U (Alt a b) st = rmatch U a st @ rmatch U b st"
| "rmatch U (Star a) st = iter (length (fst (snd st))) (rmatch U a) st"
| "rmatch U (Opt a) st = rmatch U a st @ [st]"
| "rmatch U (Grp k a) st =
     map (\<lambda>st'. (fst st', fst (snd st'),
                 (snd (snd st'))(k \<mapsto> take (length (fst (snd st)) - length (fst (snd st')))
                                            (fst (snd st)))))
         (rmatch U a st)"

text \<open>Building patterns: a sequence, a choice, a literal word, one or more.\<close>

fun seqs :: "rx list \<Rightarrow> rx" where
  "seqs [] = Eps"
| "seqs [r] = r"
| "seqs (r # rs) = Seq r (seqs rs)"

fun alts :: "rx list \<Rightarrow> rx" where
  "alts [] = Eps"
| "alts [r] = r"
| "alts (r # rs) = Alt r (alts rs)"

definition lits :: "ustr \<Rightarrow> rx" where
  "lits s = seqs (map Lit s)"

definition litsI :: "ustr \<Rightarrow> rx" where
  "litsI s = seqs (map LitI s)"

definition plus_rx :: "rx \<Rightarrow> rx" where
  "plus_rx r = Seq r (Star r)"

text \<open>
  \<open>re.search\<close>: the first position, from the left, at which the pattern matches, and
  there the first match; the result is the groups of the match.
\<close>

fun search_from :: "pylib \<Rightarrow> rx \<Rightarrow> cp option \<Rightarrow> ustr \<Rightarrow> (nat \<rightharpoonup> ustr) option" where
  "search_from U r p [] =
     (case rmatch U r (p, [], Map.empty) of [] \<Rightarrow> None | st # _ \<Rightarrow> Some (snd (snd st)))"
| "search_from U r p (c # cs) =
     (case rmatch U r (p, c # cs, Map.empty) of
        [] \<Rightarrow> search_from U r (Some c) cs
      | st # _ \<Rightarrow> Some (snd (snd st)))"

definition search :: "pylib \<Rightarrow> rx \<Rightarrow> ustr \<Rightarrow> (nat \<rightharpoonup> ustr) option" where
  "search U r s = search_from U r None s"

text \<open>
  \<open>re.sub(pattern, repl, s)\<close> and \<open>re.split(pattern, s)\<close> for patterns that match at
  least one character, as all patterns the source passes to them do: a match that
  consumes nothing is passed over.
\<close>

function sub_from :: "pylib \<Rightarrow> rx \<Rightarrow> ustr \<Rightarrow> cp option \<Rightarrow> ustr \<Rightarrow> ustr" where
  "sub_from U r repl p [] = []"
| "sub_from U r repl p (c # cs) =
     (case rmatch U r (p, c # cs, Map.empty) of
        [] \<Rightarrow> c # sub_from U r repl (Some c) cs
      | st # _ \<Rightarrow>
          if length (fst (snd st)) < length (c # cs)
          then repl @ sub_from U r repl (fst st) (fst (snd st))
          else c # sub_from U r repl (Some c) cs)"
  by pat_completeness auto
termination
  by (relation "measure (\<lambda>(U, r, repl, p, s). length s)") auto

definition re_sub :: "pylib \<Rightarrow> rx \<Rightarrow> ustr \<Rightarrow> ustr \<Rightarrow> ustr" where
  "re_sub U r repl s = sub_from U r repl None s"

function split_from :: "pylib \<Rightarrow> rx \<Rightarrow> ustr \<Rightarrow> cp option \<Rightarrow> ustr \<Rightarrow> ustr list" where
  "split_from U r acc p [] = [rev acc]"
| "split_from U r acc p (c # cs) =
     (case rmatch U r (p, c # cs, Map.empty) of
        [] \<Rightarrow> split_from U r (c # acc) (Some c) cs
      | st # _ \<Rightarrow>
          if length (fst (snd st)) < length (c # cs)
          then rev acc # split_from U r [] (fst st) (fst (snd st))
          else split_from U r (c # acc) (Some c) cs)"
  by pat_completeness auto
termination
  by (relation "measure (\<lambda>(U, r, acc, p, s). length s)") auto

definition re_split :: "pylib \<Rightarrow> rx \<Rightarrow> ustr \<Rightarrow> ustr list" where
  "re_split U r s = split_from U r [] None s"

section \<open>Salary\<close>

datatype pyerr = TypeError | AttributeError | ValueError

definition detect_currency :: "pylib \<Rightarrow> ustr \<Rightarrow> string" where
  "detect_currency U s0 =
     (let s = str_lower U s0 in
      if contains (asc ''usd'') s \<or> contains (asc ''$'') s then ''USD'' else ''VND'')"

text \<open>
  The number words: "ngh\u00ecn" is \<open>[110, 103, 104, 236, 110]\<close>, "t\u1ef7" is \<open>[116, 7927]\<close>,
  "tri\u1ec7u" is \<open>[116, 114, 105, 7879, 117]\<close>. The result is the value of the float
  literal returned, one of \<open>1.0\<close>, \<open>1000.0\<close>, \<open>1_000_000.0\<close> and \<open>1_000_000_000.0\<close>,
  each of which is a float exactly.
\<close>

definition unit_multiplier :: "pylib \<Rightarrow> ustr \<Rightarrow> string \<Rightarrow> rat" where
  "unit_multiplier U s0 currency =
     (let s = str_lower U s0 in
      if currency = ''USD''
      then (if contains (asc ''k'') s \<or> contains [110, 103, 104, 236, 110] s then 1000 else 1)
      else if contains [116, 7927] s \<or> contains (asc ''ty'') s then 1000000000
      else if contains [116, 114, 105, 7879, 117] s \<or> contains (asc ''trieu'') s
              \<or> contains (asc ''tr'') s then 1000000
      else if contains [110, 103, 104, 236, 110] s \<or> contains (asc ''nghin'') s
              \<or> contains (asc ''k'') s then 1000
      else 1)"

definition digits_value :: "pylib \<Rightarrow> ustr \<Rightarrow> nat" where
  "digits_value U ds = foldl (\<lambda>a d. 10 * a + decimal_value U d) 0 ds"

text \<open>
  \<open>float(text)\<close> on digits with an optional fraction, the form the pattern of \<open>_num\<close>
  yields: the decimal that the text denotes, rounded to the nearest float (an infinity
  when it is too large). On any other text the model has the \<open>ValueError\<close> (\<open>None\<close>
  here), although \<open>float\<close> reads more forms than this one.
\<close>

definition py_float :: "pylib \<Rightarrow> ustr \<Rightarrow> dbl option" where
  "py_float U w =
     (let ip = takeWhile (isdecimal U) w; r = dropWhile (isdecimal U) w in
      if ip = [] then None
      else (case r of
              [] \<Rightarrow> Some (nearest_double (of_nat (digits_value U ip)))
            | c # fp \<Rightarrow>
                if c = 46 \<and> fp \<noteq> [] \<and> list_all (isdecimal U) fp
                then Some (nearest_double (of_nat (digits_value U ip)
                           + of_nat (digits_value U fp) / 10 ^ length fp))
                else None))"

text \<open>\<open>(\d+(?:\.\d+)?)\<close>\<close>

definition num_rx :: rx where
  "num_rx = Grp 1 (Seq (plus_rx Dig) (Opt (Seq (Lit 46) (plus_rx Dig))))"

text \<open>
  \<open>_num\<close>: the result is \<open>None\<close> when the token holds no number. A group that did not
  take part in the match is \<open>None\<close> in Python, and \<open>float(None)\<close> is a \<open>TypeError\<close>.
\<close>

definition num :: "pylib \<Rightarrow> ustr \<Rightarrow> pyerr + dbl option" where
  "num U tok0 =
     (let tok = replace [44] [46] tok0 in
      case search U num_rx tok of
        None \<Rightarrow> Inr None
      | Some g \<Rightarrow>
          (case g 1 of
             None \<Rightarrow> Inl TypeError
           | Some w \<Rightarrow>
               (case py_float U w of None \<Rightarrow> Inl ValueError | Some v \<Rightarrow> Inr (Some v))))"

text \<open>
  \<open>_num(x) * mult\<close> for a group \<open>x\<close> of a match: a group that is \<open>None\<close> has no
  \<open>replace\<close> (\<open>AttributeError\<close>), and \<open>None * mult\<close> is a \<open>TypeError\<close>. The product
  of the two floats is the float product \<open>float_mul\<close>.
\<close>

definition num_times :: "pylib \<Rightarrow> ustr option \<Rightarrow> rat \<Rightarrow> pyerr + dbl" where
  "num_times U x mult =
     (case x of
        None \<Rightarrow> Inl AttributeError
      | Some tok \<Rightarrow>
          (case num U tok of
             Inl e \<Rightarrow> Inl e
           | Inr None \<Rightarrow> Inl TypeError
           | Inr (Some v) \<Rightarrow> Inr (float_mul v mult)))"

text \<open>\<open>unit_multiplier(tail, cur)\<close> for a group \<open>tail\<close> of a match (\<open>None\<close> has no \<open>lower\<close>).\<close>

definition multiplier_of :: "pylib \<Rightarrow> ustr option \<Rightarrow> string \<Rightarrow> pyerr + rat" where
  "multiplier_of U tail cur =
     (case tail of None \<Rightarrow> Inl AttributeError | Some t \<Rightarrow> Inr (unit_multiplier U t cur))"

text \<open>\<open>\d[\d\.,]*\<close>, the number token of the four salary patterns.\<close>

definition number_tok :: rx where
  "number_tok = Seq Dig (Star (Cls [CDigit, CChr 46, CChr 44]))"

text \<open>
  \<open>(\d[\d\.,]*)\s*(?:-|\u2013|\u2014|to|\u0111\u1ebfn|~)\s*(\d[\d\.,]*)\s*(.*)$\<close>: the dashes are
  U+2013 and U+2014, "\u0111\u1ebfn" is \<open>[273, 7871, 110]\<close>.
\<close>

definition range_rx :: rx where
  "range_rx = seqs [Grp 1 number_tok, Star Spc,
     alts [Lit 45, Lit 8211, Lit 8212, lits (asc ''to''), lits [273, 7871, 110], Lit 126],
     Star Spc, Grp 2 number_tok, Star Spc, Grp 3 (Star Dot), Eol]"

text \<open>\<open>(t\u1edbi|\u0111\u1ebfn|up to|<=)\s*(\d[\d\.,]*)\s*(.*)$\<close>: "t\u1edbi" is \<open>[116, 7899, 105]\<close>.\<close>

definition ceiling_rx :: rx where
  "ceiling_rx = seqs [
     Grp 1 (alts [lits [116, 7899, 105], lits [273, 7871, 110], lits (asc ''up to''),
                  lits (asc ''<='')]),
     Star Spc, Grp 2 number_tok, Star Spc, Grp 3 (Star Dot), Eol]"

text \<open>
  \<open>(tr\u00ean|>=|from|t\u1eeb)\s*(\d[\d\.,]*)\s*(.*)$\<close>: "tr\u00ean" is \<open>[116, 114, 234, 110]\<close>,
  "t\u1eeb" is \<open>[116, 7915]\<close>.
\<close>

definition floor_rx :: rx where
  "floor_rx = seqs [
     Grp 1 (alts [lits [116, 114, 234, 110], lits (asc ''>=''), lits (asc ''from''),
                  lits [116, 7915]]),
     Star Spc, Grp 2 number_tok, Star Spc, Grp 3 (Star Dot), Eol]"

text \<open>\<open>(\d[\d\.,]*)\s*(.*)$\<close>\<close>

definition point_rx :: rx where
  "point_rx = seqs [Grp 1 number_tok, Star Spc, Grp 2 (Star Dot), Eol]"

type_synonym salary = "dbl option \<times> dbl option \<times> string \<times> string"

definition range_result :: "pylib \<Rightarrow> (nat \<rightharpoonup> ustr) \<Rightarrow> string \<Rightarrow> pyerr + salary" where
  "range_result U g cur =
     (case multiplier_of U (g 3) cur of
        Inl e \<Rightarrow> Inl e
      | Inr mult \<Rightarrow>
          (case num_times U (g 1) mult of
             Inl e \<Rightarrow> Inl e
           | Inr lo \<Rightarrow>
               (case num_times U (g 2) mult of
                  Inl e \<Rightarrow> Inl e
                | Inr hi \<Rightarrow> Inr (Some lo, Some hi, cur, ''range''))))"

definition ceiling_result :: "pylib \<Rightarrow> (nat \<rightharpoonup> ustr) \<Rightarrow> string \<Rightarrow> pyerr + salary" where
  "ceiling_result U g cur =
     (case multiplier_of U (g 3) cur of
        Inl e \<Rightarrow> Inl e
      | Inr mult \<Rightarrow>
          (case num_times U (g 2) mult of
             Inl e \<Rightarrow> Inl e
           | Inr v \<Rightarrow> Inr (None, Some v, cur, ''ceiling'')))"

definition floor_result :: "pylib \<Rightarrow> (nat \<rightharpoonup> ustr) \<Rightarrow> string \<Rightarrow> pyerr + salary" where
  "floor_result U g cur =
     (case multiplier_of U (g 3) cur of
        Inl e \<Rightarrow> Inl e
      | Inr mult \<Rightarrow>
          (case num_times U (g 2) mult of
             Inl e \<Rightarrow> Inl e
           | Inr v \<Rightarrow> Inr (Some v, None, cur, ''floor'')))"

definition point_result :: "pylib \<Rightarrow> (nat \<rightharpoonup> ustr) \<Rightarrow> string \<Rightarrow> pyerr + salary" where
  "point_result U g cur =
     (case multiplier_of U (g 2) cur of
        Inl e \<Rightarrow> Inl e
      | Inr mult \<Rightarrow>
          (case num_times U (g 1) mult of
             Inl e \<Rightarrow> Inl e
           | Inr v \<Rightarrow> Inr (Some v, Some v, cur, ''point'')))"

text \<open>
  The text of a string cell after \<open>re.sub(r"\s+", " ", text.strip()).lower()\<close>, and the
  test for the words "tho\u1ea3 thu\u1eadn", "th\u1ecfa thu\u1eadn" (two spellings of the same word) and
  "negotiable".
\<close>

definition salary_text :: "pylib \<Rightarrow> ustr \<Rightarrow> ustr" where
  "salary_text U t = str_lower U (re_sub U (plus_rx Spc) (asc '' '') (strip U t))"

definition is_negotiable :: "ustr \<Rightarrow> bool" where
  "is_negotiable s =
     (contains [116, 104, 111, 7843, 32, 116, 104, 117, 7853, 110] s
      \<or> contains [116, 104, 7887, 97, 32, 116, 104, 117, 7853, 110] s
      \<or> contains (asc ''negotiable'') s)"

definition parse_salary :: "pylib \<Rightarrow> pyval \<Rightarrow> pyerr + salary" where
  "parse_salary U text =
     (case text of
        PStr t \<Rightarrow>
          if strip U t = [] then Inr (None, None, ''VND'', ''empty'')
          else
            (let s = salary_text U t in
             if is_negotiable s then Inr (None, None, ''VND'', ''negotiable'')
             else
               (let cur = detect_currency U s in
                case search U range_rx s of
                  Some g \<Rightarrow> range_result U g cur
                | None \<Rightarrow>
                    (case search U ceiling_rx s of
                       Some g \<Rightarrow> ceiling_result U g cur
                     | None \<Rightarrow>
                         (case search U floor_rx s of
                            Some g \<Rightarrow> floor_result U g cur
                          | None \<Rightarrow>
                              (case search U point_rx s of
                                 Some g \<Rightarrow> point_result U g cur
                               | None \<Rightarrow> Inr (None, None, cur, ''unparsed''))))))
      | _ \<Rightarrow> Inr (None, None, ''VND'', ''empty''))"

section \<open>Address\<close>

text \<open>
  The names, in the order of the source: "An Giang", "B\u00e0 R\u1ecba - V\u0169ng T\u00e0u", "B\u1eafc Giang", "B\u1eafc
  K\u1ea1n", "B\u1ea1c Li\u00eau", "B\u1eafc Ninh", "B\u1ebfn Tre", "B\u00ecnh
  \u0110\u1ecbnh", "B\u00ecnh D\u01b0\u01a1ng", "B\u00ecnh Ph\u01b0\u1edbc", "B\u00ecnh
  Thu\u1eadn", "C\u00e0 Mau", "C\u1ea7n Th\u01a1", "Cao B\u1eb1ng", "\u0110\u00e0
  N\u1eb5ng", "\u0110\u1eafk L\u1eafk", "\u0110\u1eafk N\u00f4ng", "\u0110i\u1ec7n
  Bi\u00ean", "\u0110\u1ed3ng Nai", "\u0110\u1ed3ng Th\u00e1p", "Gia Lai", "H\u00e0 Giang",
  "H\u00e0 Nam", "H\u00e0 N\u1ed9i", "H\u00e0 T\u0129nh", "H\u1ea3i D\u01b0\u01a1ng",
  "H\u1ea3i Ph\u00f2ng", "H\u1eadu Giang", "H\u00f2a B\u00ecnh", "H\u01b0ng Y\u00ean",
  "Kh\u00e1nh H\u00f2a", "Ki\u00ean Giang", "Kon Tum", "Lai Ch\u00e2u", "L\u00e2m
  \u0110\u1ed3ng", "L\u1ea1ng S\u01a1n", "L\u00e0o Cai", "Long An", "Nam \u0110\u1ecbnh",
  "Ngh\u1ec7 An", "Ninh B\u00ecnh", "Ninh Thu\u1eadn", "Ph\u00fa Th\u1ecd", "Ph\u00fa
  Y\u00ean", "Qu\u1ea3ng B\u00ecnh", "Qu\u1ea3ng Nam", "Qu\u1ea3ng Ng\u00e3i", "Qu\u1ea3ng
  Ninh", "Qu\u1ea3ng Tr\u1ecb", "S\u00f3c Tr\u0103ng", "S\u01a1n La", "T\u00e2y Ninh",
  "Th\u00e1i B\u00ecnh", "Th\u00e1i Nguy\u00ean", "Thanh H\u00f3a", "Th\u1eeba Thi\u00ean
  Hu\u1ebf", "Ti\u1ec1n Giang", "TP. H\u1ed3 Ch\u00ed Minh", "Tr\u00e0 Vinh", "Tuy\u00ean
  Quang", "V\u0129nh Long", "V\u0129nh Ph\u00fac", "Y\u00ean B\u00e1i".
\<close>

definition VIETNAM_PROVINCES :: "ustr list" where
  "VIETNAM_PROVINCES = [
     [65, 110, 32, 71, 105, 97, 110, 103],
     [66, 224, 32, 82, 7883, 97, 32, 45, 32, 86, 361, 110, 103, 32, 84, 224, 117],
     [66, 7855, 99, 32, 71, 105, 97, 110, 103],
     [66, 7855, 99, 32, 75, 7841, 110],
     [66, 7841, 99, 32, 76, 105, 234, 117],
     [66, 7855, 99, 32, 78, 105, 110, 104],
     [66, 7871, 110, 32, 84, 114, 101],
     [66, 236, 110, 104, 32, 272, 7883, 110, 104],
     [66, 236, 110, 104, 32, 68, 432, 417, 110, 103],
     [66, 236, 110, 104, 32, 80, 104, 432, 7899, 99],
     [66, 236, 110, 104, 32, 84, 104, 117, 7853, 110],
     [67, 224, 32, 77, 97, 117],
     [67, 7847, 110, 32, 84, 104, 417],
     [67, 97, 111, 32, 66, 7857, 110, 103],
     [272, 224, 32, 78, 7861, 110, 103],
     [272, 7855, 107, 32, 76, 7855, 107],
     [272, 7855, 107, 32, 78, 244, 110, 103],
     [272, 105, 7879, 110, 32, 66, 105, 234, 110],
     [272, 7891, 110, 103, 32, 78, 97, 105],
     [272, 7891, 110, 103, 32, 84, 104, 225, 112],
     [71, 105, 97, 32, 76, 97, 105],
     [72, 224, 32, 71, 105, 97, 110, 103],
     [72, 224, 32, 78, 97, 109],
     [72, 224, 32, 78, 7897, 105],
     [72, 224, 32, 84, 297, 110, 104],
     [72, 7843, 105, 32, 68, 432, 417, 110, 103],
     [72, 7843, 105, 32, 80, 104, 242, 110, 103],
     [72, 7853, 117, 32, 71, 105, 97, 110, 103],
     [72, 242, 97, 32, 66, 236, 110, 104],
     [72, 432, 110, 103, 32, 89, 234, 110],
     [75, 104, 225, 110, 104, 32, 72, 242, 97],
     [75, 105, 234, 110, 32, 71, 105, 97, 110, 103],
     [75, 111, 110, 32, 84, 117, 109],
     [76, 97, 105, 32, 67, 104, 226, 117],
     [76, 226, 109, 32, 272, 7891, 110, 103],
     [76, 7841, 110, 103, 32, 83, 417, 110],
     [76, 224, 111, 32, 67, 97, 105],
     [76, 111, 110, 103, 32, 65, 110],
     [78, 97, 109, 32, 272, 7883, 110, 104],
     [78, 103, 104, 7879, 32, 65, 110],
     [78, 105, 110, 104, 32, 66, 236, 110, 104],
     [78, 105, 110, 104, 32, 84, 104, 117, 7853, 110],
     [80, 104, 250, 32, 84, 104, 7885],
     [80, 104, 250, 32, 89, 234, 110],
     [81, 117, 7843, 110, 103, 32, 66, 236, 110, 104],
     [81, 117, 7843, 110, 103, 32, 78, 97, 109],
     [81, 117, 7843, 110, 103, 32, 78, 103, 227, 105],
     [81, 117, 7843, 110, 103, 32, 78, 105, 110, 104],
     [81, 117, 7843, 110, 103, 32, 84, 114, 7883],
     [83, 243, 99, 32, 84, 114, 259, 110, 103],
     [83, 417, 110, 32, 76, 97],
     [84, 226, 121, 32, 78, 105, 110, 104],
     [84, 104, 225, 105, 32, 66, 236, 110, 104],
     [84, 104, 225, 105, 32, 78, 103, 117, 121, 234, 110],
     [84, 104, 97, 110, 104, 32, 72, 243, 97],
     [84, 104, 7915, 97, 32, 84, 104, 105, 234, 110, 32, 72, 117, 7871],
     [84, 105, 7873, 110, 32, 71, 105, 97, 110, 103],
     [84, 80, 46, 32, 72, 7891, 32, 67, 104, 237, 32, 77, 105, 110, 104],
     [84, 114, 224, 32, 86, 105, 110, 104],
     [84, 117, 121, 234, 110, 32, 81, 117, 97, 110, 103],
     [86, 297, 110, 104, 32, 76, 111, 110, 103],
     [86, 297, 110, 104, 32, 80, 104, 250, 99],
     [89, 234, 110, 32, 66, 225, 105]]"

text \<open>
  The aliases of \<open>CANON.update\<close>; the name with accents among the keys is
  "s\u00e0i g\u00f2n". The values are "TP. H\u1ed3 Ch\u00ed Minh", "H\u00e0 N\u1ed9i",
  "\u0110\u00e0 N\u1eb5ng", "H\u1ea3i Ph\u00f2ng" and "C\u1ea7n Th\u01a1".
\<close>

definition tp_ho_chi_minh :: ustr where
  "tp_ho_chi_minh = [84, 80, 46, 32, 72, 7891, 32, 67, 104, 237, 32, 77, 105, 110, 104]"

definition ha_noi :: ustr where
  "ha_noi = [72, 224, 32, 78, 7897, 105]"

definition da_nang :: ustr where
  "da_nang = [272, 224, 32, 78, 7861, 110, 103]"

definition hai_phong :: ustr where
  "hai_phong = [72, 7843, 105, 32, 80, 104, 242, 110, 103]"

definition can_tho :: ustr where
  "can_tho = [67, 7847, 110, 32, 84, 104, 417]"

definition canon_aliases :: "(ustr \<times> ustr) list" where
  "canon_aliases = [
     (asc ''hcm'', tp_ho_chi_minh), (asc ''tp.hcm'', tp_ho_chi_minh),
     (asc ''tphcm'', tp_ho_chi_minh), (asc ''sai gon'', tp_ho_chi_minh),
     ([115, 224, 105, 32, 103, 242, 110], tp_ho_chi_minh),
     (asc ''ho chi minh'', tp_ho_chi_minh), (asc ''thanh pho ho chi minh'', tp_ho_chi_minh),
     (asc ''hn'', ha_noi), (asc ''ha noi'', ha_noi), (asc ''hanoi'', ha_noi),
     (asc ''thanh pho ha noi'', ha_noi),
     (asc ''da nang'', da_nang), (asc ''thanh pho da nang'', da_nang),
     (asc ''hai phong'', hai_phong), (asc ''thanh pho hai phong'', hai_phong),
     (asc ''can tho'', can_tho), (asc ''thanh pho can tho'', can_tho)]"

text \<open>
  \<open>CANON\<close> is the dictionary of the lower-cased names, updated with the aliases: of two
  entries with one key the later one stays, so the lookup reads the entries from the
  last one. \<open>CITY_LEXICON\<close> is the set of its keys.
\<close>

definition canon_items :: "pylib \<Rightarrow> (ustr \<times> ustr) list" where
  "canon_items U = map (\<lambda>prov. (str_lower U prov, prov)) VIETNAM_PROVINCES @ canon_aliases"

definition CANON :: "pylib \<Rightarrow> ustr \<rightharpoonup> ustr" where
  "CANON U = map_of (rev (canon_items U))"

definition CITY_LEXICON :: "pylib \<Rightarrow> ustr set" where
  "CITY_LEXICON U = set (map fst (canon_items U))"

text \<open>\<open>_norm\<close>\<close>

definition norm_str :: "pylib \<Rightarrow> ustr \<Rightarrow> ustr" where
  "norm_str U s = re_sub U (plus_rx Spc) (asc '' '') (str_lower U (strip U s))"

text \<open>
  \<^verbatim>\<open>^\s*(tp\.?|th\u00e0nh ph\u1ed1|thanh pho|t\u1ec9nh|tinh)\s+\<close> under \<open>re.I\<close>: each
  literal is compared without case.
\<close>

definition admin_prefix_rx :: rx where
  "admin_prefix_rx = seqs [Bol, Star Spc,
     Grp 1 (alts [seqs [litsI (asc ''tp''), Opt (LitI 46)],
                  litsI [116, 104, 224, 110, 104, 32, 112, 104, 7889],
                  litsI (asc ''thanh pho''),
                  litsI [116, 7881, 110, 104],
                  litsI (asc ''tinh'')]),
     plus_rx Spc]"

text \<open>\<open>_strip_admin_prefix\<close>, \<open>_base_name\<close>\<close>

definition strip_admin_prefix :: "pylib \<Rightarrow> ustr \<Rightarrow> ustr" where
  "strip_admin_prefix U raw = re_sub U admin_prefix_rx [] (strip U raw)"

definition base_name :: "pylib \<Rightarrow> ustr \<Rightarrow> ustr" where
  "base_name U raw = norm_str U (strip_admin_prefix U raw)"

text \<open>
  \<open>_canon_city\<close> and \<open>_canon_district\<close>: the argument and the result are a string or
  \<open>None\<close>; \<open>not raw\<close> holds of \<open>None\<close> and of the empty string.
\<close>

definition canon_city :: "pylib \<Rightarrow> ustr option \<Rightarrow> ustr option" where
  "canon_city U raw0 =
     (case raw0 of
        None \<Rightarrow> None
      | Some raw \<Rightarrow>
          if raw = [] then None
          else
            (let key = norm_str U raw in
             case CANON U key of
               Some v \<Rightarrow> Some v
             | None \<Rightarrow>
                 (let key2 = base_name U raw in
                  case CANON U key2 of
                    Some v \<Rightarrow> Some v
                  | None \<Rightarrow>
                      (let no_prefix = strip_admin_prefix U raw in
                       if no_prefix \<noteq> [] then Some no_prefix else Some (strip U raw)))))"

definition canon_district :: "pylib \<Rightarrow> ustr option \<Rightarrow> ustr option" where
  "canon_district U raw0 =
     (case raw0 of
        None \<Rightarrow> None
      | Some raw \<Rightarrow> if raw = [] then None else Some (strip_admin_prefix U raw))"

text \<open>\<open>_is_city\<close>\<close>

definition is_city :: "pylib \<Rightarrow> ustr \<Rightarrow> bool" where
  "is_city U token =
     (let t = norm_str U token in
      t \<in> CITY_LEXICON U \<or> startswith t (asc ''tp '') \<or> startswith t (asc ''tp.''))"

text \<open>
  The three patterns of \<open>_is_district\<close>: \<^verbatim>\<open>(qu\u1eadn|q\.)\s*\d+\<close>,
  \<^verbatim>\<open>\bdistrict\b\s*\d*\<close> and
  \<^verbatim>\<open>\b(huy\u1ec7n|th\u1ecb x\u00e3|ph\u01b0\u1eddng|x\u00e3)\b\<close>.
\<close>

definition district_rx1 :: rx where
  "district_rx1 = seqs [Grp 1 (alts [lits [113, 117, 7853, 110], lits (asc ''q.'')]),
     Star Spc, plus_rx Dig]"

definition district_rx2 :: rx where
  "district_rx2 = seqs [WordB, lits (asc ''district''), WordB, Star Spc, Star Dig]"

definition district_rx3 :: rx where
  "district_rx3 = seqs [WordB,
     Grp 1 (alts [lits [104, 117, 121, 7879, 110], lits [116, 104, 7883, 32, 120, 227],
                  lits [112, 104, 432, 7901, 110, 103], lits [120, 227]]),
     WordB]"

definition is_district :: "pylib \<Rightarrow> ustr \<Rightarrow> bool" where
  "is_district U token =
     (let t = norm_str U token in
      if search U district_rx1 t \<noteq> None then True
      else if search U district_rx2 t \<noteq> None then True
      else if search U district_rx3 t \<noteq> None then True
      else False)"

text \<open>The separators of an address, \<^verbatim>\<open>[:,;/\-\|;]\<close>.\<close>

definition separator_rx :: rx where
  "separator_rx = Cls [CChr 58, CChr 44, CChr 59, CChr 47, CChr 45, CChr 124, CChr 59]"

text \<open>\<open>[t.strip() for t in pieces if t.strip()]\<close>\<close>

definition stripped_nonblank :: "pylib \<Rightarrow> ustr list \<Rightarrow> ustr list" where
  "stripped_nonblank U pieces = map (strip U) (filter (\<lambda>t. strip U t \<noteq> []) pieces)"

definition address_tokens :: "pylib \<Rightarrow> ustr \<Rightarrow> ustr list" where
  "address_tokens U addr =
     (let tokens = stripped_nonblank U (re_split U separator_rx addr) in
      if length tokens = 1 then stripped_nonblank U (split_chr 44 [] addr) else tokens)"

text \<open>
  The body of the loop of \<open>split_address_all_pairs\<close> for the tokens \<open>a\<close> and \<open>b\<close>: which
  one is taken for the city, and the pair after canonicalisation.
\<close>

definition orient :: "pylib \<Rightarrow> ustr \<Rightarrow> ustr \<Rightarrow> ustr \<times> ustr" where
  "orient U a b =
     (let a_city = is_city U a; b_city = is_city U b;
          a_dist = is_district U a; b_dist = is_district U b in
      if a_city \<and> b_dist then (a, b)
      else if a_dist \<and> b_city then (b, a)
      else if a_city \<and> b_city then
        (if base_name U a = base_name U b \<or> contains (base_name U a) (base_name U b)
            \<or> contains (base_name U b) (base_name U a)
         then (a, b) else (a, b))
      else (a, b))"

definition make_pair :: "pylib \<Rightarrow> ustr \<Rightarrow> ustr \<Rightarrow> ustr option \<times> ustr option" where
  "make_pair U a b =
     (case orient U a b of
        (city, district) \<Rightarrow> (canon_city U (Some city), canon_district U (Some district)))"

text \<open>\<open>for i in range(0, len(tokens) - 1, 2)\<close>, from the index \<open>i\<close> on.\<close>

function pairs_loop :: "pylib \<Rightarrow> ustr list \<Rightarrow> nat \<Rightarrow> (ustr option \<times> ustr option) list" where
  "pairs_loop U tokens i =
     (if i + 1 < length tokens
      then make_pair U (tokens ! i) (tokens ! (i + 1)) # pairs_loop U tokens (i + 2)
      else [])"
  by pat_completeness auto
termination
  by (relation "measure (\<lambda>(U, tokens, i). length tokens - i)") auto

declare pairs_loop.simps [simp del]

definition split_address_all_pairs :: "pylib \<Rightarrow> pyval \<Rightarrow> (ustr option \<times> ustr option) list" where
  "split_address_all_pairs U addr =
     (case addr of
        PStr a \<Rightarrow> if strip U a = [] then [] else pairs_loop U (address_tokens U a) 0
      | _ \<Rightarrow> [])"

text \<open>
  \<open>pairs[:max_pairs]\<close>: a negative bound counts from the end. \<open>OrderedDict.fromkeys\<close>
  keeps the first of equal entries.
\<close>

definition py_prefix :: "int \<Rightarrow> 'a list \<Rightarrow> 'a list" where
  "py_prefix k xs = (if 0 \<le> k then take (nat k) xs else take (length xs - nat (- k)) xs)"

definition dedupe_first :: "'a list \<Rightarrow> 'a list" where
  "dedupe_first xs = rev (remdups (rev xs))"

definition truthy :: "ustr option \<Rightarrow> bool" where
  "truthy x = (case x of None \<Rightarrow> False | Some s \<Rightarrow> s \<noteq> [])"

definition join_or_none :: "ustr list \<Rightarrow> ustr option" where
  "join_or_none xs = (if xs \<noteq> [] then Some (join (asc '', '') xs) else None)"

definition split_address_joined ::
  "pylib \<Rightarrow> pyval \<Rightarrow> int option \<Rightarrow> bool \<Rightarrow> ustr option \<times> ustr option" where
  "split_address_joined U addr max_pairs dedupe =
     (let pairs = split_address_all_pairs U addr in
      if pairs = [] then (None, None)
      else
        (let shown = (case max_pairs of None \<Rightarrow> pairs | Some k \<Rightarrow> py_prefix k pairs);
             cities = map the (filter truthy (map fst shown));
             dists = map the (filter truthy (map snd shown));
             cities' = (if dedupe then dedupe_first cities else cities);
             dists' = (if dedupe then dedupe_first dists else dists)
         in (join_or_none cities', join_or_none dists')))"

text \<open>\<open>format_pairs\<close>: the conjunction is " v\u00e0 ".\<close>

definition format_pairs :: "pylib \<Rightarrow> pyval \<Rightarrow> ustr option" where
  "format_pairs U addr =
     (let pairs = split_address_all_pairs U addr in
      if pairs = [] then None
      else Some (join [32, 118, 224, 32]
             (map (\<lambda>pair. join (asc '', '') (map the (filter truthy [fst pair, snd pair])))
                  pairs)))"

section \<open>Job title\<close>

text \<open>\<open>_strip_accents\<close>\<close>

definition strip_accents :: "pylib \<Rightarrow> pyval \<Rightarrow> ustr" where
  "strip_accents U s =
     (case s of
        PStr t \<Rightarrow> filter (\<lambda>ch. \<not> is_mn U ch) (normalize_nfd U t)
      | _ \<Rightarrow> [])"

text \<open>\<open>str(s)\<close>\<close>

definition py_str :: "pylib \<Rightarrow> pyval \<Rightarrow> ustr" where
  "py_str U v = (case v of PStr s \<Rightarrow> s | _ \<Rightarrow> str_of_value U v)"

text \<open>
  \<open>_norm_job_text\<close>: the three substitutions are of \<^verbatim>\<open>[^\w\s\+\.#/-]\<close>,
  \<^verbatim>\<open>[-_/]\<close> and \<^verbatim>\<open>\s+\<close>, each by one space.
\<close>

definition unify_tech_tokens :: "ustr \<Rightarrow> ustr" where
  "unify_tech_tokens s =
     replace (asc ''.net'') (asc ''dotnet'')
       (replace (asc ''c#'') (asc ''csharp'')
         (replace (asc ''c++'') (asc ''cpp'')
           (replace (asc ''c/c++'') (asc ''cpp'')
             (replace (asc ''nuxt.js'') (asc ''nuxtjs'')
               (replace (asc ''next.js'') (asc ''nextjs'')
                 (replace (asc ''node.js'') (asc ''nodejs'') s))))))"

definition norm_job_text :: "pylib \<Rightarrow> pyval \<Rightarrow> ustr" where
  "norm_job_text U s0 =
     (let s1 = strip U (str_lower U (strip_accents U (PStr (py_str U s0))));
          s2 = unify_tech_tokens s1;
          s3 = re_sub U (NCls [CWord, CSpace, CChr 43, CChr 46, CChr 35, CChr 47, CChr 45])
                 (asc '' '') s2;
          s4 = re_sub U (Cls [CChr 45, CChr 95, CChr 47]) (asc '' '') s3
      in strip U (re_sub U (plus_rx Spc) (asc '' '') s4))"

text \<open>
  The rule tables. \<open>bword ''x''\<close> is the pattern \<^verbatim>\<open>\bx\b\<close> for a literal \<open>x\<close>, which
  most patterns of the tables are.
\<close>

definition bword :: "string \<Rightarrow> rx" where
  "bword s = seqs [WordB, lits (asc s), WordB]"

definition SENIORITY_PATTERNS :: "(string \<times> rx list) list" where
  "SENIORITY_PATTERNS = [
    (''intern'', [bword ''intern'', bword ''thuc tap'', bword ''thuc tap sinh'']),
    (''fresher'', [bword ''fresher'']),
    (''junior'', [bword ''junior'', bword ''jr'']),
    (''mid'', [bword ''mid'', bword ''middle'', bword ''mid level'']),
    (''senior'', [bword ''senior'', bword ''sr'']),
    (''lead'', [bword ''lead'', bword ''tech lead'', bword ''leader'']),
    (''principal'', [bword ''principal'']),
    (''manager'', [bword ''manager'', bword ''engineering manager'', bword ''quan ly'']),
    (''director'', [bword ''director'']),
    (''head'', [bword ''head'', bword ''head of'']),
    (''vp'', [bword ''vice president'', bword ''vp'']),
    (''cto'', [bword ''cto'', bword ''chief technology officer''])]"

text \<open>
  The patterns of \<open>GROUP_RULES\<close> that are not of that form are, in the order of the table,
  \<^verbatim>\<open>\bfull\s*stack\b\<close>,
  \<^verbatim>\<open>\bback\s*end\b\<close>,
  \<^verbatim>\<open>\bserver\s*side\b\<close>,
  \<^verbatim>\<open>\bapi (dev|engineer|developer)\b\<close>,
  \<^verbatim>\<open>\bfront\s*end\b\<close>,
  \<^verbatim>\<open>\bingest(ion)?\b\<close>,
  \<^verbatim>\<open>\bbig\s*data\b\<close>,
  \<^verbatim>\<open>\breport(ing)?\b\<close>,
  \<^verbatim>\<open>\bci/?cd\b\<close>,
  \<^verbatim>\<open>\b(it\s*)?infra(structure)?\b\<close>,
  \<^verbatim>\<open>\bplatform( engineer| team| ops)?\b\<close>,
  \<^verbatim>\<open>\bpentest(er)?\b\<close>,
  \<^verbatim>\<open>\bnetwork admin(istrator)?\b\<close>,
  \<^verbatim>\<open>\bhelp ?desk\b\<close>,
  \<^verbatim>\<open>\bsolutions? architect\b\<close>,
  \<^verbatim>\<open>\bgraphic (designer|design)\b\<close>,
  \<^verbatim>\<open>\bsolutions? engineer\b\<close>,
  \<^verbatim>\<open>\bpre[- ]sales\b\<close>.
\<close>

definition GROUP_RULES :: "(string \<times> rx list) list" where
  "GROUP_RULES = [
    (''fullstack_engineer'', [
       seqs [WordB, lits (asc ''full''), Star Spc, lits (asc ''stack''), WordB],
       bword ''fullstack'', bword ''mern'', bword ''mean'', bword ''mevn'']),
    (''backend_engineer'', [bword ''backend'',
       seqs [WordB, lits (asc ''back''), Star Spc, lits (asc ''end''), WordB], bword ''be'',
       seqs [WordB, lits (asc ''server''), Star Spc, lits (asc ''side''), WordB],
       seqs [WordB, lits (asc ''api ''), Grp 1 (alts [lits (asc ''dev''), lits (asc ''engineer''), lits (asc ''developer'')]), WordB],
       bword ''java'', bword ''spring'', bword ''dotnet'', bword ''csharp'',
       bword ''python'', bword ''django'', bword ''flask'', bword ''fastapi'',
       bword ''nodejs'', bword ''express'', bword ''nestjs'', bword ''go'', bword ''golang'',
       bword ''rust'', bword ''scala'', bword ''php'', bword ''laravel'', bword ''symfony'',
       bword ''ruby'', bword ''rails'']),
    (''frontend_engineer'', [bword ''frontend'',
       seqs [WordB, lits (asc ''front''), Star Spc, lits (asc ''end''), WordB],
       bword ''web developer'', bword ''react'', bword ''nextjs'', bword ''angular'',
       bword ''angularjs'', bword ''vue'', bword ''nuxtjs'', bword ''svelte'',
       bword ''javascript'', bword ''typescript'', bword ''html'', bword ''css'']),
    (''mobile_engineer'', [bword ''mobile'', bword ''android'', bword ''ios'',
       bword ''flutter'', bword ''react native'', bword ''xamarin'', bword ''swift'',
       bword ''kotlin'']),
    (''data_engineer'', [bword ''data engineer'', bword ''etl'', bword ''pipeline'',
       seqs [WordB, lits (asc ''ingest''), Opt (Grp 1 (lits (asc ''ion''))), WordB],
       bword ''airflow'', bword ''spark'', bword ''hadoop'', bword ''databricks'',
       bword ''snowflake'', bword ''redshift'',
       seqs [WordB, lits (asc ''big''), Star Spc, lits (asc ''data''), WordB],
       bword ''glue'', bword ''dwh'', bword ''analytics engineer'', bword ''dbt'']),
    (''data_science_ml_ai'', [bword ''data scientist'', bword ''ml engineer'',
       bword ''machine learning'', bword ''deep learning'', bword ''ai engineer'',
       bword ''nlp'', bword ''computer vision'', bword ''research scientist'',
       bword ''research engineer'']),
    (''data_analyst_bi'', [bword ''data analyst'', bword ''bi'', bword ''bi analyst'',
       bword ''power bi'', bword ''tableau'', bword ''looker'', bword ''dax'',
       seqs [WordB, lits (asc ''report''), Opt (Grp 1 (lits (asc ''ing''))), WordB],
       bword ''business intelligence'', bword ''analytics'', bword ''business analyst'']),
    (''mlops_dataops'', [bword ''mlops'', bword ''dataops'', bword ''feature store'',
       bword ''model serving'', bword ''model ops'']),
    (''devops_sre_cloud'', [bword ''devops'', bword ''sre'', bword ''platform engineer'',
       bword ''cloud engineer'', bword ''kubernetes'', bword ''k8s'', bword ''docker'',
       bword ''terraform'', bword ''helm'',
       seqs [WordB, lits (asc ''ci''), Opt (Lit 47), lits (asc ''cd''), WordB],
       bword ''gcp'', bword ''aws'', bword ''azure'',
       seqs [WordB, Opt (Grp 1 (seqs [lits (asc ''it''), Star Spc])), lits (asc ''infra''), Opt (Grp 2 (lits (asc ''structure''))), WordB],
       bword ''infrastructure'',
       seqs [WordB, lits (asc ''platform''), Opt (Grp 1 (alts [lits (asc '' engineer''), lits (asc '' team''), lits (asc '' ops'')])), WordB]]),
    (''qa_testing'', [bword ''qa'', bword ''quality assurance'', bword ''tester'',
       bword ''testing'', bword ''automation tester'', bword ''manual tester'',
       bword ''sdet'', bword ''quality engineer'']),
    (''security'', [bword ''security'', bword ''infosec'', bword ''secops'', bword ''soc'',
       seqs [WordB, lits (asc ''pentest''), Opt (Grp 1 (lits (asc ''er''))), WordB],
       bword ''appsec'', bword ''iam'', bword ''security engineer'']),
    (''database_admin'', [bword ''dba'', bword ''database administrator'',
       bword ''postgres'', bword ''mysql'', bword ''sql server'', bword ''oracle'',
       bword ''mongodb'', bword ''redis'']),
    (''network_engineer'', [bword ''network'', bword ''network engineer'',
       seqs [WordB, lits (asc ''network admin''), Opt (Grp 1 (lits (asc ''istrator''))), WordB],
       bword ''cisco'']),
    (''sysadmin_it_support'', [bword ''sysadmin'', bword ''system administrator'',
       bword ''it admin'', bword ''it support'',
       seqs [WordB, lits (asc ''help''), Opt (Lit 32), lits (asc ''desk''), WordB],
       bword ''desktop support'', bword ''noc'', bword ''application support'',
       bword ''it application support'']),
    (''architect'', [bword ''software architect'',
       seqs [WordB, lits (asc ''solution''), Opt (Lit 115), lits (asc '' architect''), WordB],
       bword ''enterprise architect'']),
    (''product_manager'', [bword ''product manager'', bword ''pm'', bword ''product owner'',
       bword ''po'']),
    (''project_delivery'', [bword ''project manager'', bword ''scrum master'',
       bword ''agile coach'']),
    (''design_ui_ux'', [bword ''ui/ux'', bword ''ui'', bword ''ux'',
       bword ''product designer'', bword ''ux researcher'',
       seqs [WordB, lits (asc ''graphic ''), Grp 1 (alts [lits (asc ''designer''), lits (asc ''design'')]), WordB]]),
    (''game_dev'', [bword ''game developer'', bword ''unity'', bword ''unreal'',
       bword ''game programmer'', bword ''game designer'']),
    (''embedded_firmware_iot'', [bword ''embedded'', bword ''firmware'', bword ''iot'',
       bword ''rtos'', bword ''microcontroller'']),
    (''blockchain_web3'', [bword ''blockchain'', bword ''web3'', bword ''solidity'',
       bword ''smart contract'', bword ''defi'']),
    (''erp_crm'', [bword ''erp'', bword ''sap'', bword ''odoo'', bword ''dynamics'',
       bword ''salesforce'', bword ''crm'']),
    (''rpa_engineer'', [bword ''rpa'', bword ''uipath'', bword ''blue prism'',
       bword ''automation anywhere'']),
    (''devrel'', [bword ''developer relations'', bword ''devrel'',
       bword ''developer advocate'', bword ''evangelist'']),
    (''solutions_sales_engineer'', [
       seqs [WordB, lits (asc ''solution''), Opt (Lit 115), lits (asc '' engineer''), WordB],
       seqs [WordB, lits (asc ''pre''), Cls [CChr 45, CChr 32], lits (asc ''sales''), WordB],
       bword ''solution consultant'']),
    (''technical_writer'', [bword ''technical writer'', bword ''documentation'']),
    (''software_engineer_general'', [bword ''software engineer'',
       bword ''software developer'', bword ''developer'', bword ''programmer'',
       bword ''swe'', bword ''sde'', bword ''engineer'', bword ''lap trinh vien'',
       bword ''lap trinh'', bword ''ky su phan mem'', bword ''chuyen vien lap trinh''])]"

text \<open>
  The two loops of \<open>_job_seniority\<close> and of \<open>_job_group\<close>: over the patterns of one
  entry, and over the entries of a table, returning at the first pattern that is found
  in the text.
\<close>

fun pattern_found :: "pylib \<Rightarrow> rx list \<Rightarrow> ustr \<Rightarrow> bool" where
  "pattern_found U [] txt = False"
| "pattern_found U (p # ps) txt =
     (if search U p txt \<noteq> None then True else pattern_found U ps txt)"

fun first_rule :: "pylib \<Rightarrow> (string \<times> rx list) list \<Rightarrow> ustr \<Rightarrow> string \<Rightarrow> string" where
  "first_rule U [] txt dflt = dflt"
| "first_rule U ((grp, pats) # rules) txt dflt =
     (if pattern_found U pats txt then grp else first_rule U rules txt dflt)"

text \<open>\<open>_job_seniority\<close>, \<open>_job_group\<close>\<close>

definition job_seniority :: "pylib \<Rightarrow> pyval \<Rightarrow> string" where
  "job_seniority U title = first_rule U SENIORITY_PATTERNS (norm_job_text U title) ''unknown''"

definition job_group :: "pylib \<Rightarrow> pyval \<Rightarrow> string" where
  "job_group U title = first_rule U GROUP_RULES (norm_job_text U title) ''other_it''"

definition collapse_map :: "(string \<times> string) list" where
  "collapse_map = [
     (''software_engineer_general'', ''software_engineering''),
     (''backend_engineer'', ''software_engineering''),
     (''frontend_engineer'', ''software_engineering''),
     (''fullstack_engineer'', ''software_engineering''),
     (''mobile_engineer'', ''software_engineering''),
     (''game_dev'', ''software_engineering''),
     (''embedded_firmware_iot'', ''software_engineering''),
     (''blockchain_web3'', ''software_engineering''),
     (''erp_crm'', ''software_engineering''),
     (''rpa_engineer'', ''software_engineering''),
     (''architect'', ''software_engineering''),
     (''data_engineer'', ''data''),
     (''data_analyst_bi'', ''data''),
     (''data_science_ml_ai'', ''data''),
     (''mlops_dataops'', ''data''),
     (''devops_sre_cloud'', ''infra_cloud''),
     (''qa_testing'', ''qa_testing''),
     (''security'', ''security''),
     (''sysadmin_it_support'', ''it_ops_support''),
     (''database_admin'', ''it_ops_support''),
     (''network_engineer'', ''it_ops_support''),
     (''product_manager'', ''product_project''),
     (''project_delivery'', ''product_project''),
     (''design_ui_ux'', ''design''),
     (''devrel'', ''other''),
     (''solutions_sales_engineer'', ''other''),
     (''technical_writer'', ''other''),
     (''other_it'', ''other'')]"

section \<open>Transform\<close>

text \<open>
  A table has named columns of equal length. \<open>out[c]\<close> reads a column and
  \<open>out[c] = values\<close> replaces it or appends a new one.
\<close>

record dataframe =
  cols :: "(ustr \<times> pyval list) list"

definition columns :: "dataframe \<Rightarrow> ustr list" where
  "columns df = map fst (cols df)"

definition get_col :: "dataframe \<Rightarrow> ustr \<Rightarrow> pyval list" where
  "get_col df c = (case map_of (cols df) c of Some vs \<Rightarrow> vs | None \<Rightarrow> [])"

definition set_col :: "ustr \<Rightarrow> pyval list \<Rightarrow> dataframe \<Rightarrow> dataframe" where
  "set_col c vs df =
     df\<lparr>cols := (if c \<in> set (columns df)
                 then map (\<lambda>kv. if fst kv = c then (c, vs) else kv) (cols df)
                 else cols df @ [(c, vs)])\<rparr>"

text \<open>
  \<open>STRICT_SCHEMA\<close> is read from the environment, so it is an argument here.
  \<open>_validate_schema\<close> raises a \<open>ValueError\<close> when a required column is missing.
\<close>

definition REQUIRED_COLUMNS :: "ustr list" where
  "REQUIRED_COLUMNS = [asc ''job_title'', asc ''address'', asc ''salary'']"

definition validate_schema :: "bool \<Rightarrow> dataframe \<Rightarrow> pyerr + unit" where
  "validate_schema STRICT_SCHEMA df =
     (if \<not> STRICT_SCHEMA then Inr ()
      else
        (let missing = filter (\<lambda>c. c \<notin> set (columns df)) REQUIRED_COLUMNS in
         if missing \<noteq> [] then Inl ValueError else Inr ()))"

text \<open>
  What a call of \<open>transform\<close> leaves behind besides its result: the number of cells it
  has passed to a parser or classifier, and the tables written to the quarantine
  directory, each with the error, the run and the number of the chunk.
\<close>

record effects =
  work :: nat
  quarantine :: "(dataframe \<times> pyerr \<times> ustr \<times> int) list"

text \<open>\<open>out["salary"].apply(parse_salary)\<close>: it stops at the first cell that raises.\<close>

fun apply_parse_salary :: "pylib \<Rightarrow> pyval list \<Rightarrow> nat \<Rightarrow> (pyerr + salary list) \<times> nat" where
  "apply_parse_salary U [] w = (Inr [], w)"
| "apply_parse_salary U (v # vs) w =
     (case parse_salary U v of
        Inl e \<Rightarrow> (Inl e, Suc w)
      | Inr r \<Rightarrow>
          (case apply_parse_salary U vs (Suc w) of
             (Inl e, w') \<Rightarrow> (Inl e, w')
           | (Inr rs, w') \<Rightarrow> (Inr (r # rs), w')))"

definition float_cell :: "dbl option \<Rightarrow> pyval" where
  "float_cell x = (case x of None \<Rightarrow> PNone | Some r \<Rightarrow> PFloat r)"

definition str_cell :: "ustr option \<Rightarrow> pyval" where
  "str_cell x = (case x of None \<Rightarrow> PNone | Some s \<Rightarrow> PStr s)"

text \<open>
  The salary step. \<open>zip(*parsed)\<close> of no rows yields nothing, and unpacking it into
  the four columns is a \<open>ValueError\<close>; nothing is assigned then.
\<close>

definition salary_step :: "pylib \<Rightarrow> dataframe \<Rightarrow> nat \<Rightarrow> (pyerr + dataframe) \<times> nat" where
  "salary_step U out w =
     (if asc ''salary'' \<in> set (columns out)
      then
        (case apply_parse_salary U (get_col out (asc ''salary'')) w of
           (Inl e, w') \<Rightarrow> (Inl e, w')
         | (Inr parsed, w') \<Rightarrow>
             if parsed = [] then (Inl ValueError, w')
             else
               (Inr (set_col (asc ''salary_note'') (map (\<lambda>r. PStr (asc (snd (snd (snd r))))) parsed)
                    (set_col (asc ''salary_unit'') (map (\<lambda>r. PStr (asc (fst (snd (snd r))))) parsed)
                    (set_col (asc ''max_salary'') (map (\<lambda>r. float_cell (fst (snd r))) parsed)
                    (set_col (asc ''min_salary'') (map (\<lambda>r. float_cell (fst r)) parsed) out)))),
                w'))
      else (Inr out, w))"

text \<open>The address step, with the same unpacking into two columns.\<close>

definition address_step :: "pylib \<Rightarrow> dataframe \<Rightarrow> nat \<Rightarrow> (pyerr + dataframe) \<times> nat" where
  "address_step U out w =
     (if asc ''address'' \<in> set (columns out)
      then
        (let cells = get_col out (asc ''address'');
             joined = map (\<lambda>s. split_address_joined U s None True) cells;
             w1 = w + length cells in
         if joined = [] then (Inl ValueError, w1)
         else
           (let out1 = set_col (asc ''district'') (map (\<lambda>j. str_cell (snd j)) joined)
                        (set_col (asc ''city'') (map (\<lambda>j. str_cell (fst j)) joined) out);
                cells1 = get_col out1 (asc ''address'')
            in (Inr (set_col (asc ''city_district_pairs_str'')
                       (map (\<lambda>s. str_cell (format_pairs U s)) cells1) out1),
                w1 + length cells1)))
      else (Inr out, w))"

text \<open>
  The job title step: \<open>.map(collapse_map).fillna("other")\<close> looks each cell of the new
  column up and fills what the dictionary does not have with "other".
\<close>

definition collapse_cell :: "pyval \<Rightarrow> pyval" where
  "collapse_cell v =
     (case v of
        PStr s \<Rightarrow>
          (case map_of (map (\<lambda>kv. (asc (fst kv), asc (snd kv))) collapse_map) s of
             Some big \<Rightarrow> PStr big
           | None \<Rightarrow> PStr (asc ''other''))
      | _ \<Rightarrow> PStr (asc ''other''))"

definition job_step :: "pylib \<Rightarrow> dataframe \<Rightarrow> nat \<Rightarrow> dataframe \<times> nat" where
  "job_step U out w =
     (if asc ''job_title'' \<in> set (columns out)
      then
        (let out1 = set_col (asc ''job_title_group'')
                      (map (\<lambda>s. PStr (asc (job_group U s))) (get_col out (asc ''job_title''))) out;
             w1 = w + length (get_col out (asc ''job_title''));
             out2 = set_col (asc ''job_seniority'')
                      (map (\<lambda>s. PStr (asc (job_seniority U s))) (get_col out1 (asc ''job_title'')))
                      out1;
             w2 = w1 + length (get_col out1 (asc ''job_title''))
         in (set_col (asc ''job_title_group_big'')
               (map collapse_cell (get_col out2 (asc ''job_title_group''))) out2,
             w2))
      else (out, w))"

text \<open>\<open>for col in ("min_salary", "max_salary")\<close>\<close>

definition coerce_col :: "pylib \<Rightarrow> ustr \<Rightarrow> dataframe \<Rightarrow> dataframe" where
  "coerce_col U c out =
     (if c \<in> set (columns out) then set_col c (to_numeric U (get_col out c)) out else out)"

text \<open>
  The body of the \<open>try\<close>: the result is the enriched table, or the error with the
  table as it was when the error was raised.
\<close>

definition enrich :: "pylib \<Rightarrow> dataframe \<Rightarrow> nat \<Rightarrow> (pyerr \<times> dataframe + dataframe) \<times> nat" where
  "enrich U out w =
     (case salary_step U out w of
        (Inl e, w1) \<Rightarrow> (Inl (e, out), w1)
      | (Inr out1, w1) \<Rightarrow>
          (case address_step U out1 w1 of
             (Inl e, w2) \<Rightarrow> (Inl (e, out1), w2)
           | (Inr out2, w2) \<Rightarrow>
               (case job_step U out2 w2 of
                  (out3, w3) \<Rightarrow>
                    (Inr (coerce_col U (asc ''max_salary'')
                            (coerce_col U (asc ''min_salary'') out3)), w3))))"

text \<open>
  \<open>transform\<close>: the schema is checked before the \<open>try\<close>; an error inside the \<open>try\<close>
  sends the table to quarantine and is raised again.
\<close>

definition transform ::
  "pylib \<Rightarrow> bool \<Rightarrow> dataframe \<Rightarrow> ustr \<Rightarrow> int \<Rightarrow> effects \<Rightarrow> (pyerr + dataframe) \<times> effects" where
  "transform U STRICT_SCHEMA df run_id chunk_idx eff =
     (case validate_schema STRICT_SCHEMA df of
        Inl e \<Rightarrow> (Inl e, eff)
      | Inr _ \<Rightarrow>
          (case enrich U df (work eff) of
             (Inl (e, out), w) \<Rightarrow>
               (Inl e, eff\<lparr>work := w, quarantine := quarantine eff @ [(out, e, run_id, chunk_idx)]\<rparr>)
           | (Inr out, w) \<Rightarrow> (Inr out, eff\<lparr>work := w\<rparr>)))"

section \<open>Notions used in the statements and proofs\<close>

text \<open>
  The fine category as the specification words it: the first entry of the rule table one
  of whose patterns is found in the normalised title, and "other_it" when there is none.
\<close>

definition spec_fine_category :: "pylib \<Rightarrow> ustr \<Rightarrow> string" where
  "spec_fine_category U title =
     (case find (\<lambda>rule. list_ex (\<lambda>p. search U p (norm_job_text U (PStr title)) \<noteq> None) (snd rule))
             GROUP_RULES of
        Some rule \<Rightarrow> fst rule
      | None \<Rightarrow> ''other_it'')"

text \<open>The eight coarse buckets, as the specification and the comments of the table name them.\<close>

definition spec_coarse_buckets :: "string list" where
  "spec_coarse_buckets = [''software_engineering'', ''data'', ''infra_cloud'', ''qa_testing'',
     ''security'', ''it_ops_support'', ''product_project'', ''design'']"

text \<open>
  The group numbers of a pattern; a match that leads from one position to another over
  the text \<open>w\<close>; a pattern all of whose matches leave in group \<open>k\<close> a text with the
  property \<open>P\<close>; a token that starts with a digit; digits with an optional fraction.
\<close>

primrec grps :: "rx \<Rightarrow> nat set" where
  "grps (Lit x) = {}"
| "grps (LitI x) = {}"
| "grps Dig = {}"
| "grps Spc = {}"
| "grps Dot = {}"
| "grps (Cls items) = {}"
| "grps (NCls items) = {}"
| "grps WordB = {}"
| "grps Bol = {}"
| "grps Eol = {}"
| "grps Eps = {}"
| "grps (Seq a b) = grps a \<union> grps b"
| "grps (Alt a b) = grps a \<union> grps b"
| "grps (Star a) = grps a"
| "grps (Opt a) = grps a"
| "grps (Grp k a) = insert k (grps a)"

definition advances :: "mstate \<Rightarrow> mstate \<Rightarrow> ustr \<Rightarrow> bool" where
  "advances st st' w =
     (fst (snd st) = w @ fst (snd st') \<and> fst st' = (if w = [] then fst st else Some (last w)))"

definition captures :: "pylib \<Rightarrow> rx \<Rightarrow> nat \<Rightarrow> (ustr \<Rightarrow> bool) \<Rightarrow> bool" where
  "captures U r k P =
     (\<forall>st st'. st' \<in> set (rmatch U r st) \<longrightarrow> (\<exists>w. snd (snd st') k = Some w \<and> P w))"

definition good_tok :: "pylib \<Rightarrow> ustr \<Rightarrow> bool" where
  "good_tok U w = (w \<noteq> [] \<and> isdecimal U (hd w))"

definition decimal_form :: "pylib \<Rightarrow> ustr \<Rightarrow> bool" where
  "decimal_form U w =
     (\<exists>ip. ip \<noteq> [] \<and> list_all (isdecimal U) ip \<and>
        (w = ip \<or> (\<exists>fp. fp \<noteq> [] \<and> list_all (isdecimal U) fp \<and> w = ip @ 46 # fp)))"


text \<open>The shape of the result of every string, branch by branch.\<close>

definition salary_shape :: "salary \<Rightarrow> bool" where
  "salary_shape r =
     (case r of (mn, mx, cur, nt) \<Rightarrow>
        (nt = ''empty'' \<and> mn = None \<and> mx = None)
      \<or> (nt = ''negotiable'' \<and> mn = None \<and> mx = None)
      \<or> (nt = ''unparsed'' \<and> mn = None \<and> mx = None)
      \<or> (nt = ''range'' \<and> mn \<noteq> None \<and> mx \<noteq> None)
      \<or> (nt = ''ceiling'' \<and> mn = None \<and> mx \<noteq> None)
      \<or> (nt = ''floor'' \<and> mn \<noteq> None \<and> mx = None)
      \<or> (nt = ''point'' \<and> mn \<noteq> None \<and> mx = mn))"

text \<open>A token as the splitter keeps it: not empty, no whitespace at either end.\<close>

definition clean_token :: "pylib \<Rightarrow> ustr \<Rightarrow> bool" where
  "clean_token U t = (t \<noteq> [] \<and> \<not> isspace U (hd t) \<and> \<not> isspace U (last t))"

text \<open>
  The address "H\u1ed3 Ch\u00ed Minh: Qu\u1eadn 10" of the specification and of the tests, and
  its two tokens.
\<close>

definition hcm_q10 :: ustr where
  "hcm_q10 = [72, 7891, 32, 67, 104, 237, 32, 77, 105, 110, 104, 58, 32, 81, 117, 7853, 110, 32, 49, 48]"

definition ho_chi_minh :: ustr where
  "ho_chi_minh = [72, 7891, 32, 67, 104, 237, 32, 77, 105, 110, 104]"

definition quan_10 :: ustr where
  "quan_10 = [81, 117, 7853, 110, 32, 49, 48]"

section \<open>The matcher\<close>

lemma advances_refl: "advances st st []"
  by (simp add: advances_def)

lemma advances_trans:
  "advances st st1 u \<Longrightarrow> advances st1 st2 v \<Longrightarrow> advances st st2 (u @ v)"
  by (auto simp: advances_def)

lemma step_chr_iff:
  "st' \<in> set (step_chr P st) \<longleftrightarrow>
     (\<exists>c. fst (snd st) = c # fst (snd st') \<and> P c \<and> fst st' = Some c
          \<and> snd (snd st') = snd (snd st))"
  by (cases st; cases st') (auto simp: step_chr_def split: list.splits)

lemma step_chr_advances:
  "st' \<in> set (step_chr P st) \<Longrightarrow> \<exists>c. P c \<and> advances st st' [c] \<and> snd (snd st') = snd (snd st)"
  by (auto simp: step_chr_iff advances_def)

lemma iter_advances:
  assumes f: "\<And>st st'. st' \<in> set (f st) \<Longrightarrow> \<exists>w. advances st st' w"
  shows "st' \<in> set (iter n f st) \<Longrightarrow> \<exists>w. advances st st' w"
proof (induction n arbitrary: st)
  case 0
  then have "advances st st' []" by (simp add: advances_refl)
  then show ?case ..
next
  case (Suc n)
  from Suc.prems consider "st' = st"
    | st1 where "st1 \<in> set (f st)" "st' \<in> set (iter n f st1)"
    by auto
  then show ?case
  proof cases
    case 1
    then have "advances st st' []" by (simp add: advances_refl)
    then show ?thesis ..
  next
    case 2
    from f[OF 2(1)] obtain u where "advances st st1 u" ..
    moreover from Suc.IH[OF 2(2)] obtain v where "advances st1 st' v" ..
    ultimately show ?thesis using advances_trans by blast
  qed
qed

lemma rmatch_advances:
  "st' \<in> set (rmatch U r st) \<Longrightarrow> \<exists>w. advances st st' w"
proof (induction r arbitrary: st st')
  case (Seq a b)
  from Seq.prems obtain st1 where "st1 \<in> set (rmatch U a st)" "st' \<in> set (rmatch U b st1)"
    by auto
  with Seq.IH show ?case using advances_trans by blast
next
  case (Alt a b)
  from Alt.prems have "st' \<in> set (rmatch U a st) \<or> st' \<in> set (rmatch U b st)" by simp
  with Alt.IH show ?case by blast
next
  case (Star a)
  from Star.prems have "st' \<in> set (iter (length (fst (snd st))) (rmatch U a) st)" by simp
  then show ?case using Star.IH by (rule iter_advances[rotated]) 
next
  case (Opt a)
  from Opt.prems have "st' \<in> set (rmatch U a st) \<or> st' = st" by auto
  with Opt.IH advances_refl show ?case by blast
next
  case (Grp k a)
  from Grp.prems obtain st1 where 1: "st1 \<in> set (rmatch U a st)"
    and 2: "fst st' = fst st1" "fst (snd st') = fst (snd st1)"
    by auto
  from Grp.IH[OF 1] obtain w where "advances st st1 w" ..
  with 2 have "advances st st' w" by (simp add: advances_def)
  then show ?case ..
qed (use advances_refl in \<open>(fastforce dest!: step_chr_advances split: if_splits)+\<close>)

lemma iter_caps_other:
  assumes f: "\<And>st st'. st' \<in> set (f st) \<Longrightarrow> snd (snd st') k = snd (snd st) k"
  shows "st' \<in> set (iter n f st) \<Longrightarrow> snd (snd st') k = snd (snd st) k"
proof (induction n arbitrary: st)
  case 0
  then show ?case by simp
next
  case (Suc n)
  from Suc.prems consider "st' = st"
    | st1 where "st1 \<in> set (f st)" "st' \<in> set (iter n f st1)"
    by auto
  then show ?case
  proof cases
    case 1
    then show ?thesis by simp
  next
    case 2
    from f[OF 2(1)] Suc.IH[OF 2(2)] show ?thesis by simp
  qed
qed

lemma rmatch_caps_other:
  "st' \<in> set (rmatch U r st) \<Longrightarrow> k \<notin> grps r \<Longrightarrow> snd (snd st') k = snd (snd st) k"
proof (induction r arbitrary: st st')
  case (Seq a b)
  from Seq.prems obtain st1 where "st1 \<in> set (rmatch U a st)" "st' \<in> set (rmatch U b st1)"
    by auto
  with Seq.IH Seq.prems(2) show ?case by simp
next
  case (Alt a b)
  from Alt.prems have "st' \<in> set (rmatch U a st) \<or> st' \<in> set (rmatch U b st)"
    and "k \<notin> grps a" "k \<notin> grps b" by simp_all
  with Alt.IH show ?case by blast
next
  case (Star a)
  from Star.prems have "st' \<in> set (iter (length (fst (snd st))) (rmatch U a) st)" by simp
  moreover from Star.prems(2) have "k \<notin> grps a" by simp
  ultimately show ?case using Star.IH by (intro iter_caps_other[of "rmatch U a" k st']) blast+
next
  case (Opt a)
  from Opt.prems have "st' \<in> set (rmatch U a st) \<or> st' = st" and "k \<notin> grps a" by auto
  with Opt.IH show ?case by blast
next
  case (Grp j a)
  from Grp.prems obtain st1 where 1: "st1 \<in> set (rmatch U a st)"
    and 2: "snd (snd st') k = snd (snd st1) k" and 3: "k \<notin> grps a"
    by auto
  from Grp.IH[OF 1 3] 2 show ?case by simp
qed (auto simp: step_chr_iff split: if_splits)

section \<open>The rule tables\<close>

lemma pattern_found_list_ex:
  "pattern_found U ps txt = list_ex (\<lambda>p. search U p txt \<noteq> None) ps"
  by (induction ps) auto

lemma first_rule_find:
  "first_rule U rules txt dflt =
     (case find (\<lambda>rule. list_ex (\<lambda>p. search U p txt \<noteq> None) (snd rule)) rules of
        Some rule \<Rightarrow> fst rule | None \<Rightarrow> dflt)"
  by (induction rules) (auto simp: pattern_found_list_ex)

lemma first_rule_range:
  "first_rule U rules txt dflt \<in> set (map fst rules) \<union> {dflt}"
proof (induction rules)
  case Nil
  show ?case by simp
next
  case (Cons r rules)
  obtain g ps where r: "r = (g, ps)" by (cases r)
  show ?case
  proof (cases "pattern_found U ps txt")
    case True
    then show ?thesis by (simp add: r)
  next
    case False
    with Cons show ?thesis by (auto simp: r)
  qed
qed

lemma group_names:
  "map fst GROUP_RULES = [''fullstack_engineer'', ''backend_engineer'', ''frontend_engineer'',
     ''mobile_engineer'', ''data_engineer'', ''data_science_ml_ai'', ''data_analyst_bi'',
     ''mlops_dataops'', ''devops_sre_cloud'', ''qa_testing'', ''security'', ''database_admin'',
     ''network_engineer'', ''sysadmin_it_support'', ''architect'', ''product_manager'',
     ''project_delivery'', ''design_ui_ux'', ''game_dev'', ''embedded_firmware_iot'',
     ''blockchain_web3'', ''erp_crm'', ''rpa_engineer'', ''devrel'', ''solutions_sales_engineer'',
     ''technical_writer'', ''software_engineer_general'']"
  by (simp add: GROUP_RULES_def)

lemma collapse_total_keys:
  "\<forall>g \<in> set (map fst GROUP_RULES) \<union> {''other_it''}.
     \<exists>b. map_of collapse_map g = Some b \<and> b \<in> set spec_coarse_buckets \<union> {''other''}"
  unfolding group_names by (simp add: collapse_map_def spec_coarse_buckets_def)

text \<open>
  Claim C5. The collapse table is total over what the fine classifier returns: every key
  of the rule table and "other_it" has an entry in \<open>collapse_map\<close>, the entry is one of
  the eight coarse buckets or "other", and so has the category of every title.
\<close>

theorem collapse_total:
  "(\<forall>g \<in> set (map fst GROUP_RULES) \<union> {''other_it''}.
      \<exists>b. map_of collapse_map g = Some b \<and> b \<in> set spec_coarse_buckets \<union> {''other''})
   \<and> (\<exists>b. map_of collapse_map (job_group U title) = Some b
           \<and> b \<in> set spec_coarse_buckets \<union> {''other''})"
proof -
  have "job_group U title \<in> set (map fst GROUP_RULES) \<union> {''other_it''}"
    unfolding job_group_def by (rule first_rule_range)
  with collapse_total_keys show ?thesis by blast
qed

theorem collapse_total_witness:
  "''other_it'' \<in> set (map fst GROUP_RULES) \<union> {''other_it''}
   \<and> (\<exists>b. map_of collapse_map ''other_it'' = Some b \<and> b \<in> set spec_coarse_buckets \<union> {''other''})"
  using collapse_total [of vn_lib PNone] by blast

section \<open>Salary: inputs that are no strings\<close>

text \<open>
  Claim C9. For every input that is no string (a number, \<open>None\<close>, a missing value),
  \<open>parse_salary\<close> returns what it returns for blank text: no minimum, no maximum, "VND"
  and the note "empty".
\<close>

theorem parse_salary_non_string:
  "(\<forall>t. v \<noteq> PStr t) \<longrightarrow>
     parse_salary U v = Inr (None, None, ''VND'', ''empty'')
     \<and> (strip U b = [] \<longrightarrow> parse_salary U (PStr b) = parse_salary U v)"
  by (cases v) (simp_all add: parse_salary_def)

theorem parse_salary_non_string_witness:
  "(\<forall>t. PInt 5 \<noteq> PStr t) \<and> parse_salary vn_lib (PInt 5) = Inr (None, None, ''VND'', ''empty'')
   \<and> strip vn_lib (asc ''  '') = []
   \<and> parse_salary vn_lib (PStr (asc ''  '')) = parse_salary vn_lib (PInt 5)"
  using parse_salary_non_string [of "PInt 5" vn_lib "asc ''  ''"]
  by (simp add: strip_def asc_def vn_lib_def vn_isspace_def)

section \<open>Transform: the schema check\<close>

text \<open>
  Claim C8. With the strict schema on, \<open>transform\<close> of a table that lacks one of the
  required columns (job_title, address, salary) raises the \<open>ValueError\<close> of the schema
  check and leaves everything else as it was: no cell has been passed to a parser and
  nothing has been written to quarantine, so there is no partial output.
\<close>

theorem transform_schema_violation:
  "c \<in> set [asc ''job_title'', asc ''address'', asc ''salary''] \<Longrightarrow> c \<notin> set (columns df) \<Longrightarrow>
   transform U True df run_id chunk_idx eff = (Inl ValueError, eff)
   \<and> work (snd (transform U True df run_id chunk_idx eff)) = work eff
   \<and> quarantine (snd (transform U True df run_id chunk_idx eff)) = quarantine eff"
  by (auto simp: transform_def validate_schema_def REQUIRED_COLUMNS_def Let_def filter_empty_conv)

text \<open>
  With the strict schema off, the same table is enriched: each of its two cells is
  passed to two functions.
\<close>

lemma transform_lenient_example:
  "work (snd (transform vn_lib False
       \<lparr>cols = [(asc ''job_title'', [PStr (asc ''dev'')]), (asc ''address'', [PStr (asc ''Hanoi'')])]\<rparr>
       (asc ''r1'') 1 \<lparr>work = 0, quarantine = []\<rparr>)) = 4"
  by (simp add: transform_def validate_schema_def enrich_def salary_step_def address_step_def
      job_step_def columns_def get_col_def set_col_def asc_def Let_def)

theorem transform_schema_violation_witness:
  "asc ''salary'' \<in> set [asc ''job_title'', asc ''address'', asc ''salary'']
   \<and> asc ''salary'' \<notin> set (columns \<lparr>cols = [(asc ''job_title'', [PStr (asc ''dev'')]),
                                                      (asc ''address'', [PStr (asc ''Hanoi'')])]\<rparr>)
   \<and> transform vn_lib True \<lparr>cols = [(asc ''job_title'', [PStr (asc ''dev'')]),
                                             (asc ''address'', [PStr (asc ''Hanoi'')])]\<rparr>
        (asc ''r1'') 1 \<lparr>work = 0, quarantine = []\<rparr>
      = (Inl ValueError, \<lparr>work = 0, quarantine = []\<rparr>)"
proof -
  have m: "asc ''salary'' \<in> set [asc ''job_title'', asc ''address'', asc ''salary'']"
    by simp
  have n: "asc ''salary'' \<notin> set (columns \<lparr>cols = [(asc ''job_title'', [PStr (asc ''dev'')]),
                                                      (asc ''address'', [PStr (asc ''Hanoi'')])]\<rparr>)"
    by (simp add: columns_def asc_def)
  from transform_schema_violation [OF m n, of vn_lib "asc ''r1''" 1 "\<lparr>work = 0, quarantine = []\<rparr>"] m n
  show ?thesis by blast
qed

section \<open>Captured groups\<close>

lemma advances_unique: "advances st st' w \<Longrightarrow> advances st st' w' \<Longrightarrow> w = w'"
  by (simp add: advances_def)

lemma advances_take:
  "advances st st' w \<Longrightarrow> take (length (fst (snd st)) - length (fst (snd st'))) (fst (snd st)) = w"
  by (simp add: advances_def)

lemma search_from_Some:
  "search_from U r p s = Some g \<Longrightarrow>
     \<exists>st st'. st' \<in> set (rmatch U r st) \<and> g = snd (snd st')"
proof (induction s arbitrary: p)
  case Nil
  then show ?case by (auto split: list.splits) (metis list.set_intros(1))
next
  case (Cons c cs)
  show ?case
  proof (cases "rmatch U r (p, c # cs, Map.empty)")
    case Nil
    with Cons show ?thesis by simp
  next
    case (Cons st sts)
    with Cons.prems have "g = snd (snd st)" by simp
    moreover from Cons have "st \<in> set (rmatch U r (p, c # cs, Map.empty))" by simp
    ultimately show ?thesis by blast
  qed
qed

lemma captures_search:
  "captures U r k P \<Longrightarrow> search U r s = Some g \<Longrightarrow> \<exists>w. g k = Some w \<and> P w"
  unfolding search_def captures_def by (blast dest: search_from_Some)

lemma captures_Grp:
  assumes "\<And>st st' w. st' \<in> set (rmatch U a st) \<Longrightarrow> advances st st' w \<Longrightarrow> P w"
  shows "captures U (Grp k a) k P"
  unfolding captures_def
proof (intro allI impI)
  fix st st'
  assume "st' \<in> set (rmatch U (Grp k a) st)"
  then obtain st1 where 1: "st1 \<in> set (rmatch U a st)"
    and 2: "snd (snd st') k
            = Some (take (length (fst (snd st)) - length (fst (snd st1))) (fst (snd st)))"
    by auto
  from rmatch_advances[OF 1] obtain w where w: "advances st st1 w" ..
  from 2 advances_take[OF w] have "snd (snd st') k = Some w" by simp
  with assms[OF 1 w] show "\<exists>w. snd (snd st') k = Some w \<and> P w" by simp
qed

lemma captures_SeqL:
  assumes "captures U a k P" "k \<notin> grps b"
  shows "captures U (Seq a b) k P"
  unfolding captures_def
proof (intro allI impI)
  fix st st'
  assume "st' \<in> set (rmatch U (Seq a b) st)"
  then obtain st1 where 1: "st1 \<in> set (rmatch U a st)" and 2: "st' \<in> set (rmatch U b st1)"
    by auto
  from assms(1) 1 obtain w where "snd (snd st1) k = Some w" "P w"
    unfolding captures_def by blast
  with rmatch_caps_other[OF 2 assms(2)] show "\<exists>w. snd (snd st') k = Some w \<and> P w" by simp
qed

lemma captures_SeqR:
  assumes "captures U b k P"
  shows "captures U (Seq a b) k P"
  unfolding captures_def
proof (intro allI impI)
  fix st st'
  assume "st' \<in> set (rmatch U (Seq a b) st)"
  then obtain st1 where "st' \<in> set (rmatch U b st1)" by auto
  with assms show "\<exists>w. snd (snd st') k = Some w \<and> P w" unfolding captures_def by blast
qed

lemma number_tok_word:
  assumes "st' \<in> set (rmatch U number_tok st)" "advances st st' w"
  shows "good_tok U w"
proof -
  from assms(1) obtain st1 where 1: "st1 \<in> set (step_chr (isdecimal U) st)"
    and 2: "st' \<in> set (rmatch U (Star (Cls [CDigit, CChr 46, CChr 44])) st1)"
    by (auto simp: number_tok_def)
  from step_chr_advances[OF 1] obtain c where c: "isdecimal U c" "advances st st1 [c]" by blast
  from rmatch_advances[OF 2] obtain v where "advances st1 st' v" ..
  with c(2) have "advances st st' ([c] @ v)" by (rule advances_trans)
  with assms(2) have "w = [c] @ v" by (rule advances_unique)
  with c(1) show ?thesis by (simp add: good_tok_def)
qed

lemma grps_number_tok: "grps number_tok = {}"
  by (simp add: number_tok_def)

lemma captures_number: "captures U (Grp k number_tok) k (good_tok U)"
  by (rule captures_Grp) (rule number_tok_word)

lemma captures_any: "captures U (Grp k a) k (\<lambda>w. True)"
  by (rule captures_Grp) simp

lemma range_rx_captures:
  "captures U range_rx (Suc 0) (good_tok U)"
  "captures U range_rx 2 (good_tok U)"
  "captures U range_rx 3 (\<lambda>w. True)"
  unfolding range_rx_def
  by (simp_all add: lits_def asc_def grps_number_tok captures_SeqL captures_SeqR captures_number
        captures_any)

lemma ceiling_rx_captures:
  "captures U ceiling_rx 2 (good_tok U)"
  "captures U ceiling_rx 3 (\<lambda>w. True)"
  unfolding ceiling_rx_def
  by (simp_all add: lits_def asc_def grps_number_tok captures_SeqL captures_SeqR captures_number
        captures_any)

lemma floor_rx_captures:
  "captures U floor_rx 2 (good_tok U)"
  "captures U floor_rx 3 (\<lambda>w. True)"
  unfolding floor_rx_def
  by (simp_all add: lits_def asc_def grps_number_tok captures_SeqL captures_SeqR captures_number
        captures_any)

lemma point_rx_captures:
  "captures U point_rx (Suc 0) (good_tok U)"
  "captures U point_rx 2 (\<lambda>w. True)"
  unfolding point_rx_def
  by (simp_all add: lits_def asc_def grps_number_tok captures_SeqL captures_SeqR captures_number
        captures_any)

section \<open>Rounding to the nearest float is monotone\<close>

lemma round_half_even_bounds:
  "of_int \<lfloor>x\<rfloor> \<le> (of_int (round_half_even x) :: rat)" "round_half_even x \<le> \<lfloor>x\<rfloor> + 1"
  "\<lfloor>x\<rfloor> \<le> round_half_even x"
  by (simp_all add: round_half_even_def Let_def)

lemma round_half_even_of_int: "round_half_even (of_int n) = n"
  by (simp add: round_half_even_def)

lemma round_half_even_mono:
  assumes "x \<le> y"
  shows "round_half_even x \<le> round_half_even y"
proof (cases "\<lfloor>x\<rfloor> = \<lfloor>y\<rfloor>")
  case True
  with assms have "x - of_int \<lfloor>x\<rfloor> \<le> y - of_int \<lfloor>y\<rfloor>" by simp
  with True show ?thesis by (auto simp: round_half_even_def Let_def)
next
  case False
  with assms have "\<lfloor>x\<rfloor> < \<lfloor>y\<rfloor>" using floor_mono[OF assms] by linarith
  with round_half_even_bounds(2)[of x] round_half_even_bounds(3)[of y] show ?thesis by linarith
qed

lemma round_half_even_le_int:
  "x \<le> of_int n \<Longrightarrow> round_half_even x \<le> n"
  using round_half_even_mono[of x "of_int n"] by (simp add: round_half_even_of_int)

lemma round_half_even_ge_int:
  "of_int n \<le> x \<Longrightarrow> n \<le> round_half_even x"
  using round_half_even_mono[of "of_int n" x] by (simp add: round_half_even_of_int)

lemma floorlog2_bounds:
  fixes n :: nat
  assumes "0 < n"
  shows "2 ^ (floorlog 2 n - 1) \<le> n" "n < 2 ^ floorlog 2 n" "0 < floorlog 2 n"
proof -
  from floorlog_bounds[where b = 2 and x = n] assms
  show "2 ^ (floorlog 2 n - 1) \<le> n" "n < 2 ^ floorlog 2 n" by simp_all
  from assms show "0 < floorlog 2 n" by (simp add: floorlog_def)
qed

lemma of_nat_pow2_le: "2 ^ k \<le> n \<Longrightarrow> (2::rat) ^ k \<le> of_nat n"
proof -
  assume "2 ^ k \<le> n"
  then have "(of_nat (2 ^ k) :: rat) \<le> of_nat n" by (simp only: of_nat_le_iff)
  then show ?thesis by simp
qed

lemma of_nat_le_pow2: "n \<le> 2 ^ k \<Longrightarrow> (of_nat n :: rat) \<le> 2 ^ k"
proof -
  assume "n \<le> 2 ^ k"
  then have "(of_nat n :: rat) \<le> of_nat (2 ^ k)" by (simp only: of_nat_le_iff)
  then show ?thesis by simp
qed

lemma binade_ge1_lower:
  fixes x :: rat
  assumes "1 \<le> x"
  shows "2 ^ (floorlog 2 (nat \<lfloor>x\<rfloor>) - 1) \<le> x"
proof -
  from assms have n: "0 < nat \<lfloor>x\<rfloor>" by simp
  have "(2::rat) ^ (floorlog 2 (nat \<lfloor>x\<rfloor>) - 1) \<le> of_nat (nat \<lfloor>x\<rfloor>)"
    by (rule of_nat_pow2_le) (rule floorlog2_bounds(1)[OF n])
  also from assms have "(of_nat (nat \<lfloor>x\<rfloor>) :: rat) = of_int \<lfloor>x\<rfloor>" by simp
  also have "\<dots> \<le> x" by (rule of_int_floor_le)
  finally show ?thesis .
qed

lemma binade_ge1_upper:
  fixes x :: rat
  assumes "1 \<le> x"
  shows "x < 2 ^ floorlog 2 (nat \<lfloor>x\<rfloor>)"
proof -
  from assms have n: "0 < nat \<lfloor>x\<rfloor>" by simp
  from floorlog2_bounds(2)[OF n] have "nat \<lfloor>x\<rfloor> + 1 \<le> 2 ^ floorlog 2 (nat \<lfloor>x\<rfloor>)" by arith
  then have *: "(of_nat (nat \<lfloor>x\<rfloor> + 1) :: rat) \<le> 2 ^ floorlog 2 (nat \<lfloor>x\<rfloor>)"
    by (rule of_nat_le_pow2)
  from assms have "(of_nat (nat \<lfloor>x\<rfloor> + 1) :: rat) = of_int \<lfloor>x\<rfloor> + 1" by simp
  moreover have "x < of_int \<lfloor>x\<rfloor> + 1" by linarith
  ultimately show ?thesis using * by linarith
qed

lemma binade_lt1_lower:
  fixes x :: rat
  assumes "0 < x" "x < 1"
  shows "1 / 2 ^ floorlog 2 (nat \<lceil>1 / x\<rceil> - 1) \<le> x"
proof -
  let ?c = "\<lceil>1 / x\<rceil>"
  from assms have gt: "1 < 1 / x" by simp
  then have c: "2 \<le> ?c" by linarith
  then have n: "0 < nat ?c - 1" by simp
  from floorlog2_bounds(2)[OF n] n have "nat ?c \<le> 2 ^ floorlog 2 (nat ?c - 1)" by arith
  then have "(of_nat (nat ?c) :: rat) \<le> 2 ^ floorlog 2 (nat ?c - 1)" by (rule of_nat_le_pow2)
  moreover from c have "(of_nat (nat ?c) :: rat) = of_int ?c" by simp
  moreover have "1 / x \<le> of_int ?c" by (rule le_of_int_ceiling)
  ultimately have "1 / x \<le> 2 ^ floorlog 2 (nat ?c - 1)" by linarith
  moreover have "(0::rat) < 2 ^ floorlog 2 (nat ?c - 1)" by simp
  ultimately show ?thesis using assms(1) by (simp add: divide_le_eq mult.commute)
qed

lemma binade_lt1_upper:
  fixes x :: rat
  assumes "0 < x" "x < 1"
  shows "x < 1 / 2 ^ (floorlog 2 (nat \<lceil>1 / x\<rceil> - 1) - 1)"
proof -
  let ?c = "\<lceil>1 / x\<rceil>"
  from assms have gt: "1 < 1 / x" by simp
  then have c: "2 \<le> ?c" by linarith
  then have n: "0 < nat ?c - 1" by simp
  have "(2::rat) ^ (floorlog 2 (nat ?c - 1) - 1) \<le> of_nat (nat ?c - 1)"
    by (rule of_nat_pow2_le) (rule floorlog2_bounds(1)[OF n])
  moreover have "(of_nat (nat ?c - 1) :: rat) = of_int ?c - 1"
  proof -
    from c have "1 \<le> nat ?c" by linarith
    then have "(of_nat (nat ?c - 1) :: rat) = of_nat (nat ?c) - 1" by (simp add: of_nat_diff)
    also from c have "(of_nat (nat ?c) :: rat) = of_int ?c" by simp
    finally show ?thesis .
  qed
  moreover have "of_int ?c - 1 < 1 / x" by linarith
  ultimately have "2 ^ (floorlog 2 (nat ?c - 1) - 1) < 1 / x" by linarith
  moreover have "(0::rat) < 2 ^ (floorlog 2 (nat ?c - 1) - 1)" by simp
  ultimately show ?thesis using assms(1) by (simp add: less_divide_eq mult.commute)
qed

lemma binade_bounds:
  fixes x :: rat
  assumes "0 < x"
  shows "2 powi (binade x) \<le> x" "x < 2 powi (binade x + 1)"
proof -
  show "2 powi (binade x) \<le> x"
  proof (cases "1 \<le> x")
    case True
    then have n: "0 < nat \<lfloor>x\<rfloor>" by simp
    from floorlog2_bounds(3)[OF n]
    have "int (floorlog 2 (nat \<lfloor>x\<rfloor>)) - 1 = int (floorlog 2 (nat \<lfloor>x\<rfloor>) - 1)" by simp
    then have "(2::rat) powi (binade x) = 2 ^ (floorlog 2 (nat \<lfloor>x\<rfloor>) - 1)"
      using True by (simp only: binade_def if_True power_int_of_nat)
    with binade_ge1_lower[OF True] show ?thesis by simp
  next
    case False
    then have "(2::rat) powi (binade x) = 1 / 2 ^ floorlog 2 (nat \<lceil>1 / x\<rceil> - 1)"
      by (simp add: binade_def power_int_minus inverse_eq_divide)
    with binade_lt1_lower[OF assms] False show ?thesis by simp
  qed
  show "x < 2 powi (binade x + 1)"
  proof (cases "1 \<le> x")
    case True
    then have "(2::rat) powi (binade x + 1) = 2 ^ floorlog 2 (nat \<lfloor>x\<rfloor>)"
      by (simp add: binade_def)
    with binade_ge1_upper[OF True] show ?thesis by simp
  next
    case False
    let ?j = "floorlog 2 (nat \<lceil>1 / x\<rceil> - 1)"
    from False assms have "1 < 1 / x" by simp
    then have "2 \<le> \<lceil>1 / x\<rceil>" by linarith
    then have n: "0 < nat \<lceil>1 / x\<rceil> - 1" by linarith
    from floorlog2_bounds(3)[OF n] have "- int ?j + 1 = - int (?j - 1)" by simp
    then have "(2::rat) powi (binade x + 1) = 2 powi (- int (?j - 1))"
      using False by (simp only: binade_def if_False)
    also have "\<dots> = 1 / 2 ^ (?j - 1)"
      by (simp only: power_int_minus power_int_of_nat inverse_eq_divide)
    finally show ?thesis using binade_lt1_upper[OF assms] False by simp
  qed
qed

lemma binade_mono:
  fixes x y :: rat
  assumes "0 < x" "x \<le> y"
  shows "binade x \<le> binade y"
proof (rule ccontr)
  assume "\<not> binade x \<le> binade y"
  then have "binade y + 1 \<le> binade x" by simp
  then have "(2::rat) powi (binade y + 1) \<le> 2 powi (binade x)"
    by (rule power_int_increasing) simp
  also have "\<dots> \<le> x" using assms(1) by (rule binade_bounds(1))
  also note assms(2)
  also have "y < 2 powi (binade y + 1)" using assms by (intro binade_bounds(2)) simp
  finally show False by simp
qed

lemma round_magnitude_nonneg:
  fixes x :: rat
  assumes "0 \<le> x"
  shows "0 \<le> round_magnitude x"
proof -
  let ?q = "max (binade x - 52) (- 1074)"
  have "(0::rat) \<le> x / 2 powi ?q" using assms by simp
  then have "of_int 0 \<le> x / 2 powi ?q" by simp
  then have "0 \<le> round_half_even (x / 2 powi ?q)" by (rule round_half_even_ge_int)
  then show ?thesis by (simp add: round_magnitude_def Let_def)
qed

lemma round_magnitude_mono:
  fixes x y :: rat
  assumes "0 < x" "x \<le> y"
  shows "round_magnitude x \<le> round_magnitude y"
proof -
  let ?qx = "max (binade x - 52) (- 1074)"
  let ?qy = "max (binade y - 52) (- 1074)"
  from assms have y: "0 < y" by simp
  from binade_mono[OF assms] have q: "?qx \<le> ?qy" by simp
  have px: "(0::rat) < 2 powi ?qx" and py: "(0::rat) < 2 powi ?qy" by simp_all
  show ?thesis
  proof (cases "?qx = ?qy")
    case True
    from assms(2) py have "x / 2 powi ?qy \<le> y / 2 powi ?qy" by (simp add: divide_right_mono)
    then have "round_half_even (x / 2 powi ?qy) \<le> round_half_even (y / 2 powi ?qy)"
      by (rule round_half_even_mono)
    then have "(of_int (round_half_even (x / 2 powi ?qy)) :: rat) * 2 powi ?qy
        \<le> of_int (round_half_even (y / 2 powi ?qy)) * 2 powi ?qy"
      using py by (simp add: mult_right_mono)
    then show ?thesis unfolding round_magnitude_def Let_def True .
  next
    case False
    from q False have lt: "?qx < ?qy" by (rule le_neq_trans)
    then have qy: "?qy = binade y - 52" by linarith
    let ?e = "binade y"
    from lt have ex: "binade x + 1 \<le> ?e" by linarith
    \<comment> \<open>the rounded \<open>y\<close> is at least \<open>2 powi ?e\<close>\<close>
    have "(2::rat) powi (52 + (?e - 52)) = 2 powi 52 * 2 powi (?e - 52)"
      by (rule power_int_add) simp
    moreover have "52 + (?e - 52) = ?e" by simp
    moreover have "(2::rat) powi 52 = of_int (2 ^ 52)" by (simp add: power_int_def)
    ultimately have e_y: "(2::rat) powi ?e = of_int (2 ^ 52) * 2 powi ?qy"
      unfolding qy by (simp only:)
    have "of_int (2 ^ 52) * 2 powi ?qy \<le> y" using binade_bounds(1)[OF y] e_y by simp
    then have "of_int (2 ^ 52) \<le> y / 2 powi ?qy" using py by (simp add: le_divide_eq)
    then have "2 ^ 52 \<le> round_half_even (y / 2 powi ?qy)" by (rule round_half_even_ge_int)
    then have "(of_int (2 ^ 52) :: rat) \<le> of_int (round_half_even (y / 2 powi ?qy))"
      by (simp only: of_int_le_iff)
    then have "of_int (2 ^ 52) * 2 powi ?qy
        \<le> (of_int (round_half_even (y / 2 powi ?qy)) :: rat) * 2 powi ?qy"
      using py by (intro mult_right_mono) simp_all
    then have up: "2 powi ?e \<le> round_magnitude y"
      unfolding round_magnitude_def Let_def e_y .
    \<comment> \<open>the rounded \<open>x\<close> is at most \<open>2 powi ?e\<close>\<close>
    from lt qy have d: "0 \<le> ?e - ?qx" by linarith
    have "(2::rat) powi ((?e - ?qx) + ?qx) = 2 powi (?e - ?qx) * 2 powi ?qx"
      by (rule power_int_add) simp
    moreover have "(?e - ?qx) + ?qx = ?e" by simp
    moreover have "(2::rat) powi (?e - ?qx) = of_int (2 ^ nat (?e - ?qx))"
      using d by (simp add: power_int_def)
    ultimately have e_x: "(2::rat) powi ?e = of_int (2 ^ nat (?e - ?qx)) * 2 powi ?qx"
      by (simp only:)
    have "x < 2 powi (binade x + 1)" using assms(1) by (rule binade_bounds(2))
    also have "\<dots> \<le> 2 powi ?e" using ex by (rule power_int_increasing) simp
    finally have "x \<le> of_int (2 ^ nat (?e - ?qx)) * 2 powi ?qx" using e_x by simp
    then have "x / 2 powi ?qx \<le> of_int (2 ^ nat (?e - ?qx))" using px by (simp add: divide_le_eq)
    then have "round_half_even (x / 2 powi ?qx) \<le> 2 ^ nat (?e - ?qx)"
      by (rule round_half_even_le_int)
    then have "(of_int (round_half_even (x / 2 powi ?qx)) :: rat) \<le> of_int (2 ^ nat (?e - ?qx))"
      by (simp only: of_int_le_iff)
    then have "(of_int (round_half_even (x / 2 powi ?qx)) :: rat) * 2 powi ?qx
        \<le> of_int (2 ^ nat (?e - ?qx)) * 2 powi ?qx"
      using px by (intro mult_right_mono) simp_all
    then have "round_magnitude x \<le> 2 powi ?e"
      unfolding round_magnitude_def Let_def e_x .
    with up show ?thesis by simp
  qed
qed

lemma nearest_double_mono:
  assumes "x \<le> y"
  shows "dle (nearest_double x) (nearest_double y)"
proof -
  consider "x = y" | "x < y" "0 < x" | "x < y" "x = 0" | "x < y" "x < 0" "0 < y"
    | "x < y" "x < 0" "y = 0" | "x < y" "y < 0"
    using assms by linarith
  then show ?thesis
  proof cases
    case 1
    then show ?thesis by (cases "nearest_double y") simp_all
  next
    case 2
    from round_magnitude_mono[OF 2(2) assms] 2 show ?thesis
      by (simp add: nearest_double_def Let_def)
  next
    case 3
    with round_magnitude_nonneg[of y] show ?thesis
      by (simp add: nearest_double_def Let_def)
  next
    case 4
    with round_magnitude_nonneg[of y] round_magnitude_nonneg[of "- x"] show ?thesis
      by (simp add: nearest_double_def Let_def)
  next
    case 5
    with round_magnitude_nonneg[of "- x"] show ?thesis
      by (simp add: nearest_double_def Let_def)
  next
    case 6
    then have "0 < - y" "- y \<le> - x" by simp_all
    from round_magnitude_mono[OF this] 6 show ?thesis
      by (simp add: nearest_double_def Let_def)
  qed
qed

lemma dle_PosInf: "dle x PosInf"
  by (cases x) simp_all

lemma dle_refl: "dle x x"
  by (cases x) simp_all

lemma float_mul_mono:
  assumes "0 \<le> m" "dle a b"
  shows "dle (float_mul a m) (float_mul b m)"
proof (cases a)
  case a: (Finite v)
  show ?thesis
  proof (cases b)
    case (Finite w)
    with a assms(2) have "v \<le> w" by simp
    with assms(1) have "v * m \<le> w * m" by (rule mult_right_mono[rotated])
    then have "dle (nearest_double (v * m)) (nearest_double (w * m))" by (rule nearest_double_mono)
    with a Finite show ?thesis by (simp add: float_mul_def)
  next
    case PosInf
    then show ?thesis by (simp add: float_mul_def dle_PosInf)
  next
    case NegInf
    with a assms(2) show ?thesis by simp
  qed
next
  case PosInf
  with assms(2) have "b = PosInf" by (cases b) simp_all
  with PosInf show ?thesis by (simp add: float_mul_def)
next
  case NegInf
  then show ?thesis by (simp add: float_mul_def)
qed


section \<open>Numbers in tokens\<close>

lemma iter_nonempty: "iter n f st \<noteq> []"
  by (cases n) simp_all

lemma concat_map_nonempty:
  "xs \<noteq> [] \<Longrightarrow> (\<And>x. x \<in> set xs \<Longrightarrow> f x \<noteq> []) \<Longrightarrow> concat (map f xs) \<noteq> []"
  by (cases xs) auto

lemma iter_step_chr_word:
  "st' \<in> set (iter n (step_chr P) st) \<Longrightarrow> \<exists>w. advances st st' w \<and> list_all P w"
proof (induction n arbitrary: st)
  case 0
  then have "advances st st' []" by (simp add: advances_refl)
  then show ?case by auto
next
  case (Suc n)
  from Suc.prems consider "st' = st"
    | st1 where "st1 \<in> set (step_chr P st)" "st' \<in> set (iter n (step_chr P) st1)"
    by auto
  then show ?case
  proof cases
    case 1
    then have "advances st st' []" by (simp add: advances_refl)
    then show ?thesis by auto
  next
    case 2
    from step_chr_advances[OF 2(1)] obtain c where c: "P c" "advances st st1 [c]" by blast
    from Suc.IH[OF 2(2)] obtain v where v: "advances st1 st' v" "list_all P v" by blast
    from c(2) v(1) have "advances st st' ([c] @ v)" by (rule advances_trans)
    with c(1) v(2) show ?thesis by auto
  qed
qed

lemma rmatch_Dig: "rmatch U Dig = step_chr (isdecimal U)"
  by (rule ext) simp

lemma plus_dig_word:
  assumes "st' \<in> set (rmatch U (plus_rx Dig) st)"
  shows "\<exists>w. advances st st' w \<and> w \<noteq> [] \<and> list_all (isdecimal U) w"
proof -
  from assms obtain st1 where 1: "st1 \<in> set (step_chr (isdecimal U) st)"
    and 2: "st' \<in> set (iter (length (fst (snd st1))) (step_chr (isdecimal U)) st1)"
    by (auto simp: plus_rx_def rmatch_Dig)
  from step_chr_advances[OF 1] obtain c where c: "isdecimal U c" "advances st st1 [c]" by blast
  from iter_step_chr_word[OF 2] obtain v where v: "advances st1 st' v" "list_all (isdecimal U) v"
    by blast
  from c(2) v(1) have "advances st st' ([c] @ v)" by (rule advances_trans)
  with c(1) v(2) show ?thesis by auto
qed

lemma num_rx_word:
  assumes "st' \<in> set (rmatch U (Seq (plus_rx Dig) (Opt (Seq (Lit 46) (plus_rx Dig)))) st)"
    and "advances st st' w"
  shows "decimal_form U w"
proof -
  from assms(1) obtain st1 where 1: "st1 \<in> set (rmatch U (plus_rx Dig) st)"
    and 2: "st' \<in> set (rmatch U (Seq (Lit 46) (plus_rx Dig)) st1) \<or> st' = st1"
    by auto
  from plus_dig_word[OF 1] obtain ip where ip: "advances st st1 ip" "ip \<noteq> []"
    "list_all (isdecimal U) ip" by blast
  from 2 show ?thesis
  proof
    assume "st' = st1"
    with ip(1) assms(2) have "w = ip" by (auto dest: advances_unique)
    with ip show ?thesis by (auto simp: decimal_form_def)
  next
    assume "st' \<in> set (rmatch U (Seq (Lit 46) (plus_rx Dig)) st1)"
    then obtain st2 where 3: "st2 \<in> set (step_chr (\<lambda>c. c = 46) st1)"
      and 4: "st' \<in> set (rmatch U (plus_rx Dig) st2)"
      by auto
    from step_chr_advances[OF 3] have d: "advances st1 st2 [46]" by auto
    from plus_dig_word[OF 4] obtain fp where fp: "advances st2 st' fp" "fp \<noteq> []"
      "list_all (isdecimal U) fp" by blast
    from ip(1) d have "advances st st2 (ip @ [46])" by (rule advances_trans)
    from this fp(1) have "advances st st' ((ip @ [46]) @ fp)" by (rule advances_trans)
    with assms(2) have "w = ip @ 46 # fp" by (auto dest: advances_unique)
    with ip fp show ?thesis by (auto simp: decimal_form_def)
  qed
qed

lemma num_rx_captures: "captures U num_rx 1 (decimal_form U)"
  unfolding num_rx_def by (rule captures_Grp) (rule num_rx_word)

lemma num_rx_matches:
  assumes "isdecimal U c"
  shows "rmatch U num_rx (p, c # t, g) \<noteq> []"
proof -
  have 1: "rmatch U (plus_rx Dig) (p, c # t, g) \<noteq> []"
    using assms by (simp add: plus_rx_def step_chr_def iter_nonempty)
  have "rmatch U (Seq (plus_rx Dig) (Opt (Seq (Lit 46) (plus_rx Dig)))) (p, c # t, g) \<noteq> []"
    unfolding rmatch.simps(12) by (rule concat_map_nonempty[OF 1]) simp
  then show ?thesis by (simp add: num_rx_def)
qed

lemma py_float_decimal_form:
  assumes "decimal_form U w" "\<not> isdecimal U 46"
  shows "\<exists>v. py_float U w = Some v"
proof -
  from assms(1) obtain ip where ip: "ip \<noteq> []" "list_all (isdecimal U) ip"
    and w: "w = ip \<or> (\<exists>fp. fp \<noteq> [] \<and> list_all (isdecimal U) fp \<and> w = ip @ 46 # fp)"
    unfolding decimal_form_def by blast
  from ip(2) have all: "\<And>x. x \<in> set ip \<Longrightarrow> isdecimal U x" by (simp add: list_all_iff)
  from w show ?thesis
  proof
    assume "w = ip"
    with ip all show ?thesis by (simp add: py_float_def Let_def takeWhile_eq_all_conv[THEN iffD2] dropWhile_eq_Nil_conv[THEN iffD2])
  next
    assume "\<exists>fp. fp \<noteq> [] \<and> list_all (isdecimal U) fp \<and> w = ip @ 46 # fp"
    then obtain fp where fp: "fp \<noteq> []" "list_all (isdecimal U) fp" "w = ip @ 46 # fp" by blast
    from all assms(2) have "takeWhile (isdecimal U) w = ip" "dropWhile (isdecimal U) w = 46 # fp"
      unfolding fp(3) by (simp_all add: takeWhile_append2 dropWhile_append2)
    with ip fp show ?thesis by (simp add: py_float_def Let_def)
  qed
qed

lemma replace_comma_head:
  assumes "good_tok U w" "\<not> isdecimal U 44"
  shows "\<exists>t. replace [44] [46] w = hd w # t"
proof -
  from assms obtain c cs where w: "w = c # cs" and c: "c \<noteq> 44"
    by (cases w) (auto simp: good_tok_def)
  then show ?thesis by (simp add: replace_def startswith_def)
qed

lemma num_good_tok:
  assumes "wf_lib U" "good_tok U w"
  shows "\<exists>v. num U w = Inr (Some v)"
proof -
  from assms(1) have n44: "\<not> isdecimal U 44" and n46: "\<not> isdecimal U 46"
    by (simp_all add: wf_lib_def)
  from replace_comma_head[OF assms(2) n44] obtain t where t: "replace [44] [46] w = hd w # t" ..
  from assms(2) have d: "isdecimal U (hd w)" by (simp add: good_tok_def)
  from num_rx_matches[OF d] obtain st sts
    where m: "rmatch U num_rx (None, hd w # t, Map.empty) = st # sts"
    by (cases "rmatch U num_rx (None, hd w # t, Map.empty)") auto
  then have s: "search U num_rx (hd w # t) = Some (snd (snd st))"
    by (simp add: search_def)
  from captures_search[OF num_rx_captures s] obtain x
    where x: "snd (snd st) 1 = Some x" "decimal_form U x" by blast
  from py_float_decimal_form[OF x(2) n46] obtain v where "py_float U x = Some v" ..
  with t s x(1) show ?thesis by (simp add: num_def)
qed

lemma num_times_good:
  assumes "wf_lib U" "good_tok U w"
  shows "\<exists>v. num U w = Inr (Some v) \<and> num_times U (Some w) m = Inr (float_mul v m)"
proof -
  from num_good_tok[OF assms] obtain v where "num U w = Inr (Some v)" ..
  then show ?thesis by (simp add: num_times_def)
qed

section \<open>Salary: the result of every string\<close>

lemma unit_multiplier_ge1: "1 \<le> unit_multiplier U t cur"
  by (simp add: unit_multiplier_def Let_def)

lemma range_result_ok:
  assumes "wf_lib U" "search U range_rx s = Some g"
  shows "\<exists>lo hi tail a b. g 1 = Some lo \<and> g 2 = Some hi \<and> g 3 = Some tail
           \<and> num U lo = Inr (Some a) \<and> num U hi = Inr (Some b)
           \<and> range_result U g cur
               = Inr (Some (float_mul a (unit_multiplier U tail cur)),
                      Some (float_mul b (unit_multiplier U tail cur)), cur, ''range'')"
proof -
  from captures_search[OF range_rx_captures(1) assms(2)]
  obtain lo where lo: "g 1 = Some lo" "good_tok U lo" by auto
  from captures_search[OF range_rx_captures(2) assms(2)]
  obtain hi where hi: "g 2 = Some hi" "good_tok U hi" by auto
  from captures_search[OF range_rx_captures(3) assms(2)]
  obtain tail where tail: "g 3 = Some tail" by auto
  from num_times_good[OF assms(1) lo(2)] obtain a where
    a: "num U lo = Inr (Some a)" "num_times U (Some lo) (unit_multiplier U tail cur)
          = Inr (float_mul a (unit_multiplier U tail cur))" by blast
  from num_times_good[OF assms(1) hi(2)] obtain b where
    b: "num U hi = Inr (Some b)" "num_times U (Some hi) (unit_multiplier U tail cur)
          = Inr (float_mul b (unit_multiplier U tail cur))" by blast
  from lo(1) hi(1) tail a b show ?thesis
    by (simp add: range_result_def multiplier_of_def)
qed

lemma ceiling_result_ok:
  assumes "wf_lib U" "search U ceiling_rx s = Some g"
  shows "\<exists>v. ceiling_result U g cur = Inr (None, Some v, cur, ''ceiling'')"
proof -
  from captures_search[OF ceiling_rx_captures(1) assms(2)]
  obtain x where x: "g 2 = Some x" "good_tok U x" by auto
  from captures_search[OF ceiling_rx_captures(2) assms(2)]
  obtain tail where tail: "g 3 = Some tail" by auto
  from num_times_good[OF assms(1) x(2)] obtain a where
    "num_times U (Some x) (unit_multiplier U tail cur)
       = Inr (float_mul a (unit_multiplier U tail cur))"
    by blast
  with x(1) tail show ?thesis by (simp add: ceiling_result_def multiplier_of_def)
qed

lemma floor_result_ok:
  assumes "wf_lib U" "search U floor_rx s = Some g"
  shows "\<exists>v. floor_result U g cur = Inr (Some v, None, cur, ''floor'')"
proof -
  from captures_search[OF floor_rx_captures(1) assms(2)]
  obtain x where x: "g 2 = Some x" "good_tok U x" by auto
  from captures_search[OF floor_rx_captures(2) assms(2)]
  obtain tail where tail: "g 3 = Some tail" by auto
  from num_times_good[OF assms(1) x(2)] obtain a where
    "num_times U (Some x) (unit_multiplier U tail cur)
       = Inr (float_mul a (unit_multiplier U tail cur))"
    by blast
  with x(1) tail show ?thesis by (simp add: floor_result_def multiplier_of_def)
qed

lemma point_result_ok:
  assumes "wf_lib U" "search U point_rx s = Some g"
  shows "\<exists>v. point_result U g cur = Inr (Some v, Some v, cur, ''point'')"
proof -
  from captures_search[OF point_rx_captures(1) assms(2)]
  obtain x where x: "g 1 = Some x" "good_tok U x" by auto
  from captures_search[OF point_rx_captures(2) assms(2)]
  obtain tail where tail: "g 2 = Some tail" by auto
  from num_times_good[OF assms(1) x(2)] obtain a where
    "num_times U (Some x) (unit_multiplier U tail cur)
       = Inr (float_mul a (unit_multiplier U tail cur))"
    by blast
  with x(1) tail show ?thesis by (simp add: point_result_def multiplier_of_def)
qed

lemma parse_salary_str_shape:
  assumes "wf_lib U"
  shows "\<exists>r. parse_salary U (PStr t) = Inr r \<and> salary_shape r"
proof (cases "strip U t = []")
  case True
  then show ?thesis by (simp add: parse_salary_def salary_shape_def Let_def)
next
  case nb: False
  show ?thesis
  proof (cases "is_negotiable (salary_text U t)")
    case True
    with nb show ?thesis by (simp add: parse_salary_def salary_shape_def Let_def)
  next
    case nn: False
    let ?s = "salary_text U t"
    let ?cur = "detect_currency U ?s"
    show ?thesis
    proof (cases "search U range_rx ?s")
      case (Some g)
      from range_result_ok[OF assms Some, of ?cur] obtain a b tail where
        "range_result U g ?cur = Inr (Some (float_mul a (unit_multiplier U tail ?cur)),
            Some (float_mul b (unit_multiplier U tail ?cur)), ?cur, ''range'')" by blast
      with nb nn Some show ?thesis by (simp add: parse_salary_def salary_shape_def Let_def)
    next
      case r: None
      show ?thesis
      proof (cases "search U ceiling_rx ?s")
        case (Some g)
        from ceiling_result_ok[OF assms Some, of ?cur] obtain v where
          "ceiling_result U g ?cur = Inr (None, Some v, ?cur, ''ceiling'')" ..
        with nb nn r Some show ?thesis by (simp add: parse_salary_def salary_shape_def Let_def)
      next
        case c: None
        show ?thesis
        proof (cases "search U floor_rx ?s")
          case (Some g)
          from floor_result_ok[OF assms Some, of ?cur] obtain v where
            "floor_result U g ?cur = Inr (Some v, None, ?cur, ''floor'')" ..
          with nb nn r c Some show ?thesis by (simp add: parse_salary_def salary_shape_def Let_def)
        next
          case f: None
          show ?thesis
          proof (cases "search U point_rx ?s")
            case (Some g)
            from point_result_ok[OF assms Some, of ?cur] obtain v where
              "point_result U g ?cur = Inr (Some v, Some v, ?cur, ''point'')" ..
            with nb nn r c f Some show ?thesis by (simp add: parse_salary_def salary_shape_def Let_def)
          next
            case None
            with nb nn r c f show ?thesis by (simp add: parse_salary_def salary_shape_def Let_def)
          qed
        qed
      qed
    qed
  qed
qed

lemma parse_salary_total:
  assumes "wf_lib U"
  shows "\<exists>r. parse_salary U v = Inr r"
proof (cases v)
  case (PStr t)
  with parse_salary_str_shape[OF assms, of t] show ?thesis by blast
qed (simp_all add: parse_salary_def)


section \<open>Evaluation with the Vietnamese tables\<close>

lemma vn_lib_sel:
  "isspace vn_lib = vn_isspace" "isdecimal vn_lib = vn_isdecimal"
  "decimal_value vn_lib = (\<lambda>c. c - 48)" "isalnum vn_lib = vn_isalnum"
  "str_lower vn_lib = map vn_lower1" "ci_equal vn_lib = (\<lambda>p c. vn_lower1 c = vn_lower1 p)"
  "normalize_nfd vn_lib = (\<lambda>s. s)" "is_mn vn_lib = (\<lambda>c. False)"
  "str_of_value vn_lib = vn_str_of_value" "to_numeric vn_lib = vn_to_numeric"
  by (simp_all add: vn_lib_def)

lemmas vn_tables = vn_isspace_def vn_isdecimal_def vn_isupper_def vn_paired_upper_def
  vn_lower1_def vn_isalnum_def is_word_def word_before_def word_after_def

lemmas rx_eval = step_chr_def plus_rx_def lits_def litsI_def asc_def search_def


lemmas salary_eval = parse_salary_def salary_text_def strip_def re_sub_def is_negotiable_def
  startswith_def detect_currency_def unit_multiplier_def range_rx_def ceiling_rx_def
  floor_rx_def point_rx_def number_tok_def range_result_def ceiling_result_def
  floor_result_def point_result_def multiplier_of_def num_times_def num_def num_rx_def
  replace_def py_float_def digits_value_def

lemma floor_rat_numeral: "\<lfloor>numeral a / numeral b :: rat\<rfloor> = numeral a div numeral b"
  using floor_divide_of_int_eq[of "numeral a" "numeral b", where ?'a = rat] by simp

lemma ceiling_rat_numeral: "\<lceil>numeral a / numeral b :: rat\<rceil> = - (- numeral a div numeral b)"
  using ceiling_divide_eq_div[of "numeral a" "numeral b", where ?'a = rat] by simp

lemmas float_eval = float_mul_def nearest_double_def round_magnitude_def binade_def
  round_half_even_def compute_floorlog Let_def floor_rat_numeral ceiling_rat_numeral
  power_int_minus

lemma wf_vn_lib: "wf_lib vn_lib"
  by (simp add: wf_lib_def vn_lib_sel vn_isdecimal_def)

lemma eval_range_20_10:
  "parse_salary vn_lib (PStr (asc ''20 - 10''))
     = Inr (Some (Finite 20), Some (Finite 10), ''VND'', ''range'')"
  by (simp add: salary_eval float_eval vn_lib_sel vn_tables rx_eval)

lemma eval_range_10_20_tr:
  "parse_salary vn_lib (PStr (asc ''10 - 20 tr''))
     = Inr (Some (Finite 10000000), Some (Finite 20000000), ''VND'', ''range'')"
  by (simp add: salary_eval float_eval vn_lib_sel vn_tables rx_eval)

text \<open>
  Rounding is visible in the amounts: \<open>float("4.1") * 1000000.0\<close> is
  \<open>4099999.9999999995\<close>, the float \<open>8804682956799999 / 2 ^ 31\<close>, and the floats of
  \<open>9007199254740993\<close> and of \<open>9007199254740992\<close> are the same \<open>2 ^ 53\<close>.
\<close>

lemma eval_range_4_1_5_3_tr:
  "parse_salary vn_lib (PStr (asc ''4.1 - 5.3 tr''))
     = Inr (Some (Finite (8804682956799999 / 2147483648)), Some (Finite 5300000),
            ''VND'', ''range'')"
  by (simp add: salary_eval float_eval vn_lib_sel vn_tables rx_eval)

lemma eval_range_2_53:
  "parse_salary vn_lib (PStr (asc ''9007199254740993 - 9007199254740992''))
     = Inr (Some (Finite 9007199254740992), Some (Finite 9007199254740992),
            ''VND'', ''range'')"
  by (simp add: salary_eval float_eval vn_lib_sel vn_tables rx_eval)

lemma eval_text_abc: "strip vn_lib (asc ''abc'') = asc ''abc''"
  "salary_text vn_lib (asc ''abc'') = asc ''abc''"
  by (simp_all add: salary_eval vn_lib_sel vn_tables rx_eval)

lemma eval_search_abc:
  "search vn_lib range_rx (asc ''abc'') = None"
  "search vn_lib ceiling_rx (asc ''abc'') = None"
  "search vn_lib floor_rx (asc ''abc'') = None"
  "search vn_lib point_rx (asc ''abc'') = None"
  by (simp_all add: salary_eval vn_lib_sel vn_tables rx_eval)

lemma eval_empty:
  "salary_text vn_lib [] = []"
  "search vn_lib range_rx [] = None"
  "search vn_lib ceiling_rx [] = None"
  "search vn_lib floor_rx [] = None"
  "search vn_lib point_rx [] = None"
  "parse_salary vn_lib (PStr []) = Inr (None, None, ''VND'', ''empty'')"
  by (simp_all add: salary_eval vn_lib_sel vn_tables rx_eval)


section \<open>Salary: the claims\<close>

text \<open>
  Claim C1, as amended. With comma and full stop no decimal digits, \<open>parse_salary\<close>
  returns a 4-tuple for every input value and never raises; and for every string that
  is not blank and in which, after normalisation, none of the negotiable, range,
  ceiling, floor and single-number patterns is found, it returns no minimum, no maximum,
  the detected currency and the note "unparsed". (A blank string matches none of the
  patterns either, and its note is "empty".)
\<close>

theorem parse_salary_never_raises:
  "wf_lib U \<Longrightarrow>
     (\<exists>mn mx cur nt. parse_salary U v = Inr (mn, mx, cur, nt))
   \<and> (strip U t \<noteq> [] \<and> \<not> is_negotiable (salary_text U t)
        \<and> search U range_rx (salary_text U t) = None
        \<and> search U ceiling_rx (salary_text U t) = None
        \<and> search U floor_rx (salary_text U t) = None
        \<and> search U point_rx (salary_text U t) = None
      \<longrightarrow> parse_salary U (PStr t)
            = Inr (None, None, detect_currency U (salary_text U t), ''unparsed''))"
proof (intro conjI impI)
  assume "wf_lib U"
  from parse_salary_total[OF this, of v] obtain r where "parse_salary U v = Inr r" ..
  then show "\<exists>mn mx cur nt. parse_salary U v = Inr (mn, mx, cur, nt)"
    by (cases r) auto
qed (simp add: parse_salary_def Let_def)

theorem parse_salary_never_raises_witness:
  "wf_lib vn_lib
   \<and> (\<exists>mn mx cur nt. parse_salary vn_lib (PInt 7) = Inr (mn, mx, cur, nt))
   \<and> strip vn_lib (asc ''abc'') \<noteq> [] \<and> \<not> is_negotiable (salary_text vn_lib (asc ''abc''))
   \<and> search vn_lib range_rx (salary_text vn_lib (asc ''abc'')) = None
   \<and> search vn_lib ceiling_rx (salary_text vn_lib (asc ''abc'')) = None
   \<and> search vn_lib floor_rx (salary_text vn_lib (asc ''abc'')) = None
   \<and> search vn_lib point_rx (salary_text vn_lib (asc ''abc'')) = None
   \<and> parse_salary vn_lib (PStr (asc ''abc'')) = Inr (None, None, ''VND'', ''unparsed'')"
proof -
  have d: "detect_currency vn_lib (asc ''abc'') = ''VND''"
    by (simp add: salary_eval vn_lib_sel vn_tables rx_eval)
  have n: "\<not> is_negotiable (asc ''abc'')"
    by (simp add: salary_eval vn_lib_sel vn_tables rx_eval)
  have s: "strip vn_lib (asc ''abc'') \<noteq> []"
    by (simp add: strip_def vn_lib_sel vn_tables asc_def)
  from parse_salary_never_raises [OF wf_vn_lib, of "PInt 7" "asc ''abc''"] wf_vn_lib d n s show ?thesis
    by (simp add: eval_text_abc eval_search_abc)
qed


text \<open>
  The claim as it was stated fails at the empty string: none of the five patterns is
  found in it, and the note is "empty", not "unparsed".
\<close>

theorem parse_salary_blank_counterexample:
  "\<not> is_negotiable (salary_text vn_lib [])
   \<and> search vn_lib range_rx (salary_text vn_lib []) = None
   \<and> search vn_lib ceiling_rx (salary_text vn_lib []) = None
   \<and> search vn_lib floor_rx (salary_text vn_lib []) = None
   \<and> search vn_lib point_rx (salary_text vn_lib []) = None
   \<and> parse_salary vn_lib (PStr []) = Inr (None, None, ''VND'', ''empty'')
   \<and> parse_salary vn_lib (PStr [])
       \<noteq> Inr (None, None, detect_currency vn_lib (salary_text vn_lib []), ''unparsed'')"
  by (simp add: eval_empty is_negotiable_def asc_def)


text \<open>
  Claim C2. For every string the note settles which of minimum and maximum are null:
  "range" and "point" have both (and "point" has them equal), "floor" has the minimum
  only, "ceiling" the maximum only, and "negotiable", "empty" and "unparsed" have
  neither; there is no other note.
\<close>

theorem note_determines_nulls:
  "wf_lib U \<Longrightarrow>
   \<exists>mn mx cur nt. parse_salary U (PStr t) = Inr (mn, mx, cur, nt)
     \<and> nt \<in> set [''range'', ''point'', ''floor'', ''ceiling'', ''negotiable'', ''empty'', ''unparsed'']
     \<and> (nt = ''range'' \<or> nt = ''point'' \<longrightarrow> mn \<noteq> None \<and> mx \<noteq> None)
     \<and> (nt = ''point'' \<longrightarrow> mn = mx)
     \<and> (nt = ''floor'' \<longrightarrow> mn \<noteq> None \<and> mx = None)
     \<and> (nt = ''ceiling'' \<longrightarrow> mn = None \<and> mx \<noteq> None)
     \<and> (nt = ''negotiable'' \<or> nt = ''empty'' \<or> nt = ''unparsed'' \<longrightarrow> mn = None \<and> mx = None)"
proof -
  assume "wf_lib U"
  from parse_salary_str_shape[OF this, of t] obtain r
    where r: "parse_salary U (PStr t) = Inr r" "salary_shape r" by blast
  obtain mn mx cur nt where "r = (mn, mx, cur, nt)" by (cases r)
  with r show ?thesis by (auto simp: salary_shape_def)
qed
theorem note_determines_nulls_witness:
  "wf_lib vn_lib
   \<and> parse_salary vn_lib (PStr (asc ''20 - 10''))
       = Inr (Some (Finite 20), Some (Finite 10), ''VND'', ''range'')
   \<and> (\<exists>mn mx cur nt. parse_salary vn_lib (PStr (asc ''20 - 10'')) = Inr (mn, mx, cur, nt)
     \<and> nt \<in> set [''range'', ''point'', ''floor'', ''ceiling'', ''negotiable'', ''empty'', ''unparsed'']
     \<and> (nt = ''range'' \<or> nt = ''point'' \<longrightarrow> mn \<noteq> None \<and> mx \<noteq> None)
     \<and> (nt = ''point'' \<longrightarrow> mn = mx)
     \<and> (nt = ''floor'' \<longrightarrow> mn \<noteq> None \<and> mx = None)
     \<and> (nt = ''ceiling'' \<longrightarrow> mn = None \<and> mx \<noteq> None)
     \<and> (nt = ''negotiable'' \<or> nt = ''empty'' \<or> nt = ''unparsed'' \<longrightarrow> mn = None \<and> mx = None))"
  using note_determines_nulls [OF wf_vn_lib, of "asc ''20 - 10''"] wf_vn_lib eval_range_20_10 by blast


text \<open>
  The claim as it was stated (minimum at most maximum for every range) fails at
  "20 - 10": the note is "range", the minimum is the float 20 and the maximum is the
  float 10.
\<close>

theorem range_order_counterexample:
  "parse_salary vn_lib (PStr (asc ''20 - 10''))
     = Inr (Some (Finite 20), Some (Finite 10), ''VND'', ''range'')
   \<and> \<not> dle (Finite 20) (Finite 10)"
  using eval_range_20_10 by simp


lemma parse_salary_range_branch:
  assumes "parse_salary U (PStr t) = Inr (mn, mx, cur, ''range'')" "wf_lib U"
  shows "\<exists>g. search U range_rx (salary_text U t) = Some g
           \<and> range_result U g (detect_currency U (salary_text U t)) = Inr (mn, mx, cur, ''range'')"
proof -
  let ?s = "salary_text U t"
  let ?cur = "detect_currency U ?s"
  from assms(1) have nb: "strip U t \<noteq> []" and nn: "\<not> is_negotiable ?s"
    by (auto simp: parse_salary_def Let_def split: if_splits)
  show ?thesis
  proof (cases "search U range_rx ?s")
    case (Some g)
    with assms(1) nb nn show ?thesis by (simp add: parse_salary_def Let_def)
  next
    case r: None
    show ?thesis
    proof (cases "search U ceiling_rx ?s")
      case (Some g)
      from ceiling_result_ok[OF assms(2) Some, of ?cur] obtain v where
        "ceiling_result U g ?cur = Inr (None, Some v, ?cur, ''ceiling'')" ..
      with assms(1) nb nn r Some show ?thesis by (simp add: parse_salary_def Let_def)
    next
      case c: None
      show ?thesis
      proof (cases "search U floor_rx ?s")
        case (Some g)
        from floor_result_ok[OF assms(2) Some, of ?cur] obtain v where
          "floor_result U g ?cur = Inr (Some v, None, ?cur, ''floor'')" ..
        with assms(1) nb nn r c Some show ?thesis by (simp add: parse_salary_def Let_def)
      next
        case f: None
        show ?thesis
        proof (cases "search U point_rx ?s")
          case (Some g)
          from point_result_ok[OF assms(2) Some, of ?cur] obtain v where
            "point_result U g ?cur = Inr (Some v, Some v, ?cur, ''point'')" ..
          with assms(1) nb nn r c f Some show ?thesis by (simp add: parse_salary_def Let_def)
        next
          case None
          with assms(1) nb nn r c f show ?thesis by (simp add: parse_salary_def Let_def)
        qed
      qed
    qed
  qed
qed


text \<open>
  Claim C3, as amended. When the note is "range", the minimum and the maximum are the
  floats \<open>_num(lo) * mult\<close> and \<open>_num(hi) * mult\<close> of the first and the second number of
  the matched range, with one unit multiplier \<open>mult\<close> for both, which is at least 1. The
  two are not reordered. Reading a number and multiplying it round to the nearest float,
  which keeps the order but may merge two numbers: when the first number is at most the
  second the minimum is at most the maximum, and when the first number is at least the
  second the minimum is at least the maximum.
\<close>

theorem range_order:
  "wf_lib U \<Longrightarrow> parse_salary U (PStr t) = Inr (mn, mx, cur, ''range'') \<Longrightarrow>
   \<exists>g lo hi tail a b m. search U range_rx (salary_text U t) = Some g
     \<and> g 1 = Some lo \<and> g 2 = Some hi \<and> g 3 = Some tail
     \<and> num U lo = Inr (Some a) \<and> num U hi = Inr (Some b)
     \<and> cur = detect_currency U (salary_text U t)
     \<and> m = unit_multiplier U tail cur \<and> 1 \<le> m
     \<and> mn = Some (float_mul a m) \<and> mx = Some (float_mul b m)
     \<and> (dle a b \<longrightarrow> dle (float_mul a m) (float_mul b m))
     \<and> (dle b a \<longrightarrow> dle (float_mul b m) (float_mul a m))"
proof -
  assume wf: "wf_lib U" and p: "parse_salary U (PStr t) = Inr (mn, mx, cur, ''range'')"
  let ?cur = "detect_currency U (salary_text U t)"
  from parse_salary_range_branch[OF p wf] obtain g
    where g: "search U range_rx (salary_text U t) = Some g"
      "range_result U g ?cur = Inr (mn, mx, cur, ''range'')" by blast
  from range_result_ok[OF wf g(1), of ?cur] obtain lo hi tail a b
    where r: "g 1 = Some lo" "g 2 = Some hi" "g 3 = Some tail"
      "num U lo = Inr (Some a)" "num U hi = Inr (Some b)"
      "range_result U g ?cur = Inr (Some (float_mul a (unit_multiplier U tail ?cur)),
          Some (float_mul b (unit_multiplier U tail ?cur)), ?cur, ''range'')" by blast
  let ?m = "unit_multiplier U tail ?cur"
  have m: "1 \<le> ?m" by (rule unit_multiplier_ge1)
  then have m0: "0 \<le> ?m" by simp
  have up: "dle a b \<longrightarrow> dle (float_mul a ?m) (float_mul b ?m)"
    using float_mul_mono[OF m0] by blast
  have down: "dle b a \<longrightarrow> dle (float_mul b ?m) (float_mul a ?m)"
    using float_mul_mono[OF m0] by blast
  from g(2) r(6) have e: "mn = Some (float_mul a ?m)" "mx = Some (float_mul b ?m)" "cur = ?cur"
    by auto
  show ?thesis
    apply (rule exI[of _ g], rule exI[of _ lo], rule exI[of _ hi], rule exI[of _ tail])
    apply (rule exI[of _ a], rule exI[of _ b], rule exI[of _ ?m])
    using g(1) r(1-5) e m up down by simp
qed

theorem range_order_witness:
  "wf_lib vn_lib
   \<and> parse_salary vn_lib (PStr (asc ''10 - 20 tr''))
       = Inr (Some (Finite 10000000), Some (Finite 20000000), ''VND'', ''range'')
   \<and> (\<exists>g lo hi tail a b m. search vn_lib range_rx (salary_text vn_lib (asc ''10 - 20 tr'')) = Some g
     \<and> g 1 = Some lo \<and> g 2 = Some hi \<and> g 3 = Some tail
     \<and> num vn_lib lo = Inr (Some a) \<and> num vn_lib hi = Inr (Some b)
     \<and> ''VND'' = detect_currency vn_lib (salary_text vn_lib (asc ''10 - 20 tr''))
     \<and> m = unit_multiplier vn_lib tail ''VND'' \<and> 1 \<le> m
     \<and> Some (Finite 10000000) = Some (float_mul a m)
     \<and> Some (Finite 20000000) = Some (float_mul b m)
     \<and> (dle a b \<longrightarrow> dle (float_mul a m) (float_mul b m))
     \<and> (dle b a \<longrightarrow> dle (float_mul b m) (float_mul a m)))"
  using range_order [OF wf_vn_lib eval_range_10_20_tr] wf_vn_lib eval_range_10_20_tr by blast

section \<open>Job title: the first matching rule\<close>

lemma job_group_find:
  "job_group U (PStr title)
     = (case find (\<lambda>rule. list_ex (\<lambda>p. search U p (norm_job_text U (PStr title)) \<noteq> None) (snd rule))
               GROUP_RULES of
          Some rule \<Rightarrow> fst rule | None \<Rightarrow> ''other_it'')"
  unfolding job_group_def by (rule first_rule_find)

lemma find_first_index:
  assumes "i < length xs" "P (xs ! i)" "\<forall>j < i. \<not> P (xs ! j)"
  shows "find P xs = Some (xs ! i)"
  using assms unfolding find_Some_iff by blast

lemma find_no_index:
  assumes "\<forall>i < length xs. \<not> P (xs ! i)"
  shows "find P xs = None"
  using assms unfolding find_None_iff by (metis in_set_conv_nth)



section \<open>Address: the loop over the tokens\<close>

lemma pairs_loop_length: "length (pairs_loop U tokens i) = (length tokens - i) div 2"
proof (induction U tokens i rule: pairs_loop.induct)
  case (1 U tokens i)
  show ?case
  proof (cases "i + 1 < length tokens")
    case True
    with 1 have "length (pairs_loop U tokens (i + 2)) = (length tokens - (i + 2)) div 2"
      by simp
    moreover from True have "Suc ((length tokens - (i + 2)) div 2) = (length tokens - i) div 2"
      by arith
    ultimately show ?thesis using True by (subst pairs_loop.simps) simp
  next
    case False
    then show ?thesis by (subst pairs_loop.simps) simp
  qed
qed

lemma pairs_loop_nth:
  "k < (length tokens - i) div 2 \<Longrightarrow>
   pairs_loop U tokens i ! k = make_pair U (tokens ! (i + 2 * k)) (tokens ! (i + 2 * k + 1))"
proof (induction U tokens i arbitrary: k rule: pairs_loop.induct)
  case (1 U tokens i)
  from 1(2) have lt: "i + 1 < length tokens" by arith
  show ?case
  proof (cases k)
    case 0
    with lt show ?thesis by (subst pairs_loop.simps) simp
  next
    case (Suc j)
    with 1(2) lt have "j < (length tokens - (i + 2)) div 2" by arith
    from 1(1)[OF lt this] Suc lt show ?thesis
      by (subst pairs_loop.simps) simp
  qed
qed


lemma split_str: "strip U a \<noteq> [] \<Longrightarrow> split_address_all_pairs U (PStr a) = pairs_loop U (address_tokens U a) 0"
  by (simp add: split_address_all_pairs_def)

lemma split_blank: "strip U a = [] \<Longrightarrow> split_address_all_pairs U (PStr a) = []"
  by (simp add: split_address_all_pairs_def)

lemma split_non_string: "(\<forall>s. v \<noteq> PStr s) \<Longrightarrow> split_address_all_pairs U v = []"
  by (cases v) (simp_all add: split_address_all_pairs_def)



section \<open>Address: tokens and canonical names are not empty\<close>

lemma last_dropWhile_nonempty:
  "dropWhile P zs \<noteq> [] \<Longrightarrow> last (dropWhile P zs) = last zs"
  by (metis last_appendR takeWhile_dropWhile_id)

lemma strip_clean:
  assumes "strip U s \<noteq> []"
  shows "clean_token U (strip U s)"
proof -
  let ?P = "isspace U"
  let ?xs = "dropWhile ?P s"
  let ?ys = "dropWhile ?P (rev ?xs)"
  from assms have ys: "?ys \<noteq> []" by (simp add: strip_def)
  have xs: "?xs \<noteq> []"
  proof
    assume e: "?xs = []"
    have "?ys = []" unfolding e by simp
    with ys show False ..
  qed
  have 1: "\<not> ?P (hd ?ys)" using ys by (rule hd_dropWhile)
  have "last ?ys = last (rev ?xs)" using ys by (rule last_dropWhile_nonempty)
  also have "\<dots> = hd ?xs" using xs by (simp add: last_rev)
  finally have 2: "\<not> ?P (last ?ys)" using hd_dropWhile[OF xs] by simp
  have "strip U s = rev ?ys" by (simp add: strip_def)
  with ys 1 2 show ?thesis by (simp add: clean_token_def hd_rev last_rev)
qed

lemma strip_clean_id:
  assumes "clean_token U t"
  shows "strip U t = t"
proof -
  from assms obtain c cs where t: "t = c # cs" and c: "\<not> isspace U c"
    by (cases t) (auto simp: clean_token_def)
  then have 1: "dropWhile (isspace U) t = t" by simp
  from assms have "rev t \<noteq> []" "\<not> isspace U (hd (rev t))"
    by (simp_all add: clean_token_def hd_rev)
  then have "dropWhile (isspace U) (rev t) = rev t" by (cases "rev t") auto
  with 1 show ?thesis by (simp add: strip_def)
qed

lemma stripped_nonblank_clean:
  "t \<in> set (stripped_nonblank U pieces) \<Longrightarrow> clean_token U t"
  by (auto simp: stripped_nonblank_def strip_clean)

lemma address_tokens_clean:
  "t \<in> set (address_tokens U a) \<Longrightarrow> clean_token U t"
  by (auto simp: address_tokens_def Let_def stripped_nonblank_clean split: if_splits)

lemma rmatch_Spc: "rmatch U Spc = step_chr (isspace U)"
  by (rule ext) simp

lemma plus_spc_end:
  assumes "st' \<in> set (rmatch U (plus_rx Spc) st)"
  shows "\<exists>w. advances st st' w \<and> w \<noteq> [] \<and> isspace U (last w)"
proof -
  from assms obtain st1 where 1: "st1 \<in> set (step_chr (isspace U) st)"
    and 2: "st' \<in> set (iter (length (fst (snd st1))) (step_chr (isspace U)) st1)"
    by (auto simp: plus_rx_def rmatch_Spc)
  from step_chr_advances[OF 1] obtain c where c: "isspace U c" "advances st st1 [c]" by blast
  from iter_step_chr_word[OF 2] obtain v where v: "advances st1 st' v" "list_all (isspace U) v"
    by blast
  from c(2) v(1) have a: "advances st st' ([c] @ v)" by (rule advances_trans)
  have "isspace U (last ([c] @ v))"
  proof (cases "v = []")
    case True
    with c(1) show ?thesis by simp
  next
    case False
    with v(2) show ?thesis by (simp add: list_all_iff)
  qed
  with a show ?thesis by blast
qed

lemma Seq_end:
  assumes "st' \<in> set (rmatch U (Seq a b) st)"
    and b: "\<And>st1 st2. st2 \<in> set (rmatch U b st1) \<Longrightarrow> \<exists>w. advances st1 st2 w \<and> w \<noteq> [] \<and> P (last w)"
  shows "\<exists>w. advances st st' w \<and> w \<noteq> [] \<and> P (last w)"
proof -
  from assms(1) obtain st1 where 1: "st1 \<in> set (rmatch U a st)" and 2: "st' \<in> set (rmatch U b st1)"
    by auto
  from rmatch_advances[OF 1] obtain u where u: "advances st st1 u" ..
  from b[OF 2] obtain w where w: "advances st1 st' w" "w \<noteq> []" "P (last w)" by blast
  from u w(1) have "advances st st' (u @ w)" by (rule advances_trans)
  with w(2,3) show ?thesis by (intro exI[of _ "u @ w"]) simp
qed

lemma admin_prefix_end:
  assumes "st' \<in> set (rmatch U admin_prefix_rx st)"
  shows "\<exists>w. advances st st' w \<and> w \<noteq> [] \<and> isspace U (last w)"
proof -
  let ?g = "Grp 1 (alts [seqs [litsI (asc ''tp''), Opt (LitI 46)],
                  litsI [116, 104, 224, 110, 104, 32, 112, 104, 7889],
                  litsI (asc ''thanh pho''),
                  litsI [116, 7881, 110, 104],
                  litsI (asc ''tinh'')])"
  have eq: "admin_prefix_rx = Seq Bol (Seq (Star Spc) (Seq ?g (plus_rx Spc)))"
    unfolding admin_prefix_rx_def by (simp only: seqs.simps)
  have 3: "\<exists>w. advances s1 s2 w \<and> w \<noteq> [] \<and> isspace U (last w)"
    if "s2 \<in> set (rmatch U (Seq ?g (plus_rx Spc)) s1)" for s1 s2
    using that by (rule Seq_end) (rule plus_spc_end)
  have 2: "\<exists>w. advances s1 s2 w \<and> w \<noteq> [] \<and> isspace U (last w)"
    if "s2 \<in> set (rmatch U (Seq (Star Spc) (Seq ?g (plus_rx Spc))) s1)" for s1 s2
    using that by (rule Seq_end) (rule 3)
  from assms show ?thesis unfolding eq by (rule Seq_end) (rule 2)
qed

lemma sub_from_nonempty:
  assumes ends: "\<And>st st'. st' \<in> set (rmatch U r st) \<Longrightarrow>
                   \<exists>w. advances st st' w \<and> w \<noteq> [] \<and> isspace U (last w)"
  shows "s \<noteq> [] \<Longrightarrow> \<not> isspace U (last s) \<Longrightarrow> sub_from U r repl p s \<noteq> []"
proof (induction s arbitrary: p rule: length_induct)
  case (1 s)
  from 1(2) obtain c cs where s: "s = c # cs" by (cases s) auto
  show ?case
  proof (cases "rmatch U r (p, c # cs, Map.empty)")
    case Nil
    then show ?thesis by (simp add: s)
  next
    case (Cons st sts)
    show ?thesis
    proof (cases "length (fst (snd st)) < length (c # cs)")
      case False
      with Cons show ?thesis by (simp add: s)
    next
      case True
      from Cons have "st \<in> set (rmatch U r (p, c # cs, Map.empty))" by simp
      from ends[OF this] obtain w where w: "advances (p, c # cs, Map.empty) st w" "w \<noteq> []"
        "isspace U (last w)" by blast
      from w(1) have eq: "c # cs = w @ fst (snd st)" by (simp add: advances_def)
      have ne: "fst (snd st) \<noteq> []"
      proof
        assume "fst (snd st) = []"
        with eq have "last s = last w" by (simp add: s)
        with w(3) 1(3) show False by simp
      qed
      with eq have la: "last (fst (snd st)) = last s" by (metis last_appendR s)
      from True have "length (fst (snd st)) < length s" by (simp add: s)
      with 1(1) ne la 1(3) have "sub_from U r repl (fst st) (fst (snd st)) \<noteq> []" by simp
      with Cons True show ?thesis by (simp add: s)
    qed
  qed
qed

lemma strip_admin_prefix_nonempty:
  assumes "clean_token U t"
  shows "strip_admin_prefix U t \<noteq> []"
proof -
  from assms have s: "strip U t = t" by (rule strip_clean_id)
  from assms have "t \<noteq> []" "\<not> isspace U (last t)" by (simp_all add: clean_token_def)
  have "sub_from U admin_prefix_rx [] None t \<noteq> []"
  proof (rule sub_from_nonempty)
    show "t \<noteq> []" "\<not> isspace U (last t)" using assms by (simp_all add: clean_token_def)
  qed (rule admin_prefix_end)
  then show ?thesis unfolding strip_admin_prefix_def re_sub_def s .
qed

lemma provinces_nonempty: "[] \<notin> set VIETNAM_PROVINCES"
  by (simp add: VIETNAM_PROVINCES_def)

lemma aliases_nonempty: "[] \<notin> snd ` set canon_aliases"
  by (simp add: canon_aliases_def tp_ho_chi_minh_def ha_noi_def da_nang_def hai_phong_def
      can_tho_def)

lemma CANON_nonempty:
  assumes "CANON U key = Some v"
  shows "v \<noteq> []"
proof -
  from assms have "(key, v) \<in> set (canon_items U)"
    unfolding CANON_def by (auto dest: map_of_SomeD)
  then have "v \<in> set VIETNAM_PROVINCES \<or> v \<in> snd ` set canon_aliases"
    unfolding canon_items_def by force
  with provinces_nonempty aliases_nonempty show ?thesis by auto
qed

lemma canon_city_nonempty:
  assumes "clean_token U t"
  shows "\<exists>c. canon_city U (Some t) = Some c \<and> c \<noteq> []"
proof -
  from assms have t: "t \<noteq> []" "strip U t = t"
    by (simp_all add: clean_token_def strip_clean_id)
  then show ?thesis
    by (auto simp: canon_city_def Let_def CANON_nonempty split: option.splits)
qed

lemma canon_district_nonempty:
  assumes "clean_token U t"
  shows "\<exists>d. canon_district U (Some t) = Some d \<and> d \<noteq> []"
  using assms strip_admin_prefix_nonempty[OF assms]
  by (simp add: canon_district_def clean_token_def)

lemma orient_cases: "orient U a b = (a, b) \<or> orient U a b = (b, a)"
  by (simp add: orient_def Let_def)

lemma make_pair_nonempty:
  assumes "clean_token U a" "clean_token U b"
  shows "\<exists>c d. make_pair U a b = (Some c, Some d) \<and> c \<noteq> [] \<and> d \<noteq> []"
  using orient_cases[of U a b] canon_city_nonempty[OF assms(1)] canon_city_nonempty[OF assms(2)]
    canon_district_nonempty[OF assms(1)] canon_district_nonempty[OF assms(2)]
  by (auto simp: make_pair_def)

lemma pairs_loop_elems:
  "x \<in> set (pairs_loop U tokens i) \<Longrightarrow>
     \<exists>a \<in> set tokens. \<exists>b \<in> set tokens. x = make_pair U a b"
proof (induction U tokens i rule: pairs_loop.induct)
  case (1 U tokens i)
  show ?case
  proof (cases "i + 1 < length tokens")
    case True
    with 1(2) have "x = make_pair U (tokens ! i) (tokens ! (i + 1))
        \<or> x \<in> set (pairs_loop U tokens (i + 2))"
      by (subst (asm) pairs_loop.simps) simp
    then show ?thesis
    proof
      assume "x = make_pair U (tokens ! i) (tokens ! (i + 1))"
      moreover from True have "tokens ! i \<in> set tokens" "tokens ! (i + 1) \<in> set tokens"
        by simp_all
      ultimately show ?thesis by blast
    next
      assume "x \<in> set (pairs_loop U tokens (i + 2))"
      with 1(1)[OF True] show ?thesis by simp
    qed
  next
    case False
    with 1(2) show ?thesis by (subst (asm) pairs_loop.simps) simp
  qed
qed



section \<open>Evaluation of titles and addresses\<close>

lemmas job_eval = norm_job_text_def strip_accents_def py_str_def unify_tech_tokens_def
  replace_def startswith_def strip_def re_sub_def bword_def

lemma eval_norm_pbe:
  "norm_job_text vn_lib (PStr (asc ''Python Backend Engineer'')) = asc ''python backend engineer''"
  by (simp add: job_eval vn_lib_sel vn_tables rx_eval)

lemma eval_backend_found:
  "search vn_lib (bword ''backend'') (asc ''python backend engineer'') \<noteq> None"
  by (simp add: job_eval vn_lib_sel vn_tables rx_eval)

lemma eval_fullstack_not_found:
  "\<not> list_ex (\<lambda>p. search vn_lib p (asc ''python backend engineer'') \<noteq> None) (snd (GROUP_RULES ! 0))"
  by (simp add: GROUP_RULES_def job_eval vn_lib_sel vn_tables rx_eval)

lemmas address_eval = strip_def re_sub_def re_split_def norm_str_def strip_admin_prefix_def
  base_name_def admin_prefix_rx_def separator_rx_def stripped_nonblank_def address_tokens_def
  startswith_def district_rx1_def district_rx2_def district_rx3_def

lemma eval_hcm_strip: "strip vn_lib hcm_q10 \<noteq> []"
  by (simp add: hcm_q10_def strip_def vn_lib_sel vn_tables)

lemma eval_hcm_tokens: "address_tokens vn_lib hcm_q10 = [ho_chi_minh, quan_10]"
  by (simp add: hcm_q10_def ho_chi_minh_def quan_10_def address_eval vn_lib_sel vn_tables rx_eval)

lemma eval_hcm_norm:
  "norm_str vn_lib ho_chi_minh = [104, 7891, 32, 99, 104, 237, 32, 109, 105, 110, 104]"
  "norm_str vn_lib quan_10 = [113, 117, 7853, 110, 32, 49, 48]"
  by (simp_all add: ho_chi_minh_def quan_10_def address_eval vn_lib_sel vn_tables rx_eval)

lemma eval_hcm_prefix:
  "strip_admin_prefix vn_lib ho_chi_minh = ho_chi_minh"
  "strip_admin_prefix vn_lib quan_10 = quan_10"
  by (simp_all add: ho_chi_minh_def quan_10_def address_eval vn_lib_sel vn_tables rx_eval)

lemma eval_lexicon:
  "[104, 7891, 32, 99, 104, 237, 32, 109, 105, 110, 104] \<notin> CITY_LEXICON vn_lib"
  "[113, 117, 7853, 110, 32, 49, 48] \<notin> CITY_LEXICON vn_lib"
  by (simp_all add: CITY_LEXICON_def canon_items_def VIETNAM_PROVINCES_def canon_aliases_def
      asc_def vn_lib_sel vn_tables)

lemma CANON_None: "key \<notin> CITY_LEXICON U \<Longrightarrow> CANON U key = None"
  by (simp add: CANON_def CITY_LEXICON_def map_of_eq_None_iff)

lemma orient_plain: "\<not> is_city U a \<Longrightarrow> \<not> is_city U b \<Longrightarrow> orient U a b = (a, b)"
  by (simp add: orient_def Let_def)

lemma eval_hcm_is_city: "\<not> is_city vn_lib ho_chi_minh" "\<not> is_city vn_lib quan_10"
  by (simp_all add: is_city_def eval_hcm_norm eval_lexicon startswith_def asc_def)

lemma eval_hcm_city: "canon_city vn_lib (Some ho_chi_minh) = Some ho_chi_minh"
proof -
  have ne: "ho_chi_minh \<noteq> []" by (simp add: ho_chi_minh_def)
  then show ?thesis
    by (simp add: canon_city_def base_name_def eval_hcm_prefix eval_hcm_norm
        CANON_None[OF eval_lexicon(1)])
qed

lemma eval_hcm_district: "canon_district vn_lib (Some quan_10) = Some quan_10"
proof -
  have ne: "quan_10 \<noteq> []" by (simp add: quan_10_def)
  then show ?thesis by (simp add: canon_district_def eval_hcm_prefix)
qed

lemma eval_hcm_pair: "make_pair vn_lib ho_chi_minh quan_10 = (Some ho_chi_minh, Some quan_10)"
  by (simp add: make_pair_def orient_plain[OF eval_hcm_is_city] eval_hcm_city eval_hcm_district)

lemma pairs_loop_two: "pairs_loop U [a, b] 0 = [make_pair U a b]"
proof -
  have "pairs_loop U [a, b] (Suc (Suc 0)) = []" by (subst pairs_loop.simps) simp
  then show ?thesis by (subst pairs_loop.simps) simp
qed

lemma pairs_loop_three: "pairs_loop U [a, b, c] 0 = [make_pair U a b]"
proof -
  have "pairs_loop U [a, b, c] (Suc (Suc 0)) = []" by (subst pairs_loop.simps) simp
  then show ?thesis by (subst pairs_loop.simps) simp
qed

lemma eval_hcm_pairs:
  "split_address_all_pairs vn_lib (PStr hcm_q10) = [(Some ho_chi_minh, Some quan_10)]"
  using eval_hcm_strip
  by (simp add: split_address_all_pairs_def eval_hcm_tokens pairs_loop_two eval_hcm_pair)

lemma eval_abc_tokens:
  "strip vn_lib (asc ''a,b,c'') \<noteq> []"
  "address_tokens vn_lib (asc ''a,b,c'') = [[97], [98], [99]]"
  by (simp_all add: address_eval vn_lib_sel vn_tables rx_eval)

lemma eval_blank: "strip vn_lib (asc ''  '') = []"
  by (simp add: strip_def asc_def vn_lib_sel vn_tables)

lemma eval_abc_pairs:
  "split_address_all_pairs vn_lib (PStr (asc ''a,b,c'')) = [make_pair vn_lib [97] [98]]"
  using eval_abc_tokens(1)
  by (simp add: split_address_all_pairs_def eval_abc_tokens(2) pairs_loop_three)



section \<open>Job title and address: the claims\<close>

text \<open>
  Claim C4. For every title string, \<open>_job_group\<close> returns the category of the first
  entry of the rule table, in its fixed order (from "fullstack_engineer" to the general
  "software_engineer_general"), one of whose patterns is found in the normalised title,
  and "other_it" when no entry has such a pattern.
\<close>

theorem job_group_first_match:
  "job_group U (PStr title) = spec_fine_category U title
   \<and> (\<forall>i < length GROUP_RULES.
        list_ex (\<lambda>p. search U p (norm_job_text U (PStr title)) \<noteq> None) (snd (GROUP_RULES ! i))
        \<and> (\<forall>j < i. \<not> list_ex (\<lambda>p. search U p (norm_job_text U (PStr title)) \<noteq> None)
                          (snd (GROUP_RULES ! j)))
        \<longrightarrow> job_group U (PStr title) = fst (GROUP_RULES ! i))
   \<and> ((\<forall>i < length GROUP_RULES.
         \<not> list_ex (\<lambda>p. search U p (norm_job_text U (PStr title)) \<noteq> None) (snd (GROUP_RULES ! i)))
        \<longrightarrow> job_group U (PStr title) = ''other_it'')
   \<and> map fst GROUP_RULES = [''fullstack_engineer'', ''backend_engineer'', ''frontend_engineer'',
     ''mobile_engineer'', ''data_engineer'', ''data_science_ml_ai'', ''data_analyst_bi'',
     ''mlops_dataops'', ''devops_sre_cloud'', ''qa_testing'', ''security'', ''database_admin'',
     ''network_engineer'', ''sysadmin_it_support'', ''architect'', ''product_manager'',
     ''project_delivery'', ''design_ui_ux'', ''game_dev'', ''embedded_firmware_iot'',
     ''blockchain_web3'', ''erp_crm'', ''rpa_engineer'', ''devrel'', ''solutions_sales_engineer'',
     ''technical_writer'', ''software_engineer_general'']"
proof (intro conjI allI impI)
  show "job_group U (PStr title) = spec_fine_category U title"
    unfolding job_group_find spec_fine_category_def ..
next
  fix i
  assume "i < length GROUP_RULES"
    and "list_ex (\<lambda>p. search U p (norm_job_text U (PStr title)) \<noteq> None) (snd (GROUP_RULES ! i))
        \<and> (\<forall>j < i. \<not> list_ex (\<lambda>p. search U p (norm_job_text U (PStr title)) \<noteq> None)
                          (snd (GROUP_RULES ! j)))"
  then have "find (\<lambda>rule. list_ex (\<lambda>p. search U p (norm_job_text U (PStr title)) \<noteq> None) (snd rule))
               GROUP_RULES = Some (GROUP_RULES ! i)"
    by (intro find_first_index) simp_all
  then show "job_group U (PStr title) = fst (GROUP_RULES ! i)"
    unfolding job_group_find by simp
next
  assume "\<forall>i < length GROUP_RULES.
         \<not> list_ex (\<lambda>p. search U p (norm_job_text U (PStr title)) \<noteq> None) (snd (GROUP_RULES ! i))"
  then have "find (\<lambda>rule. list_ex (\<lambda>p. search U p (norm_job_text U (PStr title)) \<noteq> None) (snd rule))
               GROUP_RULES = None"
    by (intro find_no_index) simp
  then show "job_group U (PStr title) = ''other_it''"
    unfolding job_group_find by simp
next
  show "map fst GROUP_RULES = [''fullstack_engineer'', ''backend_engineer'', ''frontend_engineer'',
     ''mobile_engineer'', ''data_engineer'', ''data_science_ml_ai'', ''data_analyst_bi'',
     ''mlops_dataops'', ''devops_sre_cloud'', ''qa_testing'', ''security'', ''database_admin'',
     ''network_engineer'', ''sysadmin_it_support'', ''architect'', ''product_manager'',
     ''project_delivery'', ''design_ui_ux'', ''game_dev'', ''embedded_firmware_iot'',
     ''blockchain_web3'', ''erp_crm'', ''rpa_engineer'', ''devrel'', ''solutions_sales_engineer'',
     ''technical_writer'', ''software_engineer_general'']"
    by (rule group_names)
qed

theorem job_group_first_match_witness:
  "1 < length GROUP_RULES
   \<and> list_ex (\<lambda>p. search vn_lib p (norm_job_text vn_lib (PStr (asc ''Python Backend Engineer''))) \<noteq> None)
        (snd (GROUP_RULES ! 1))
   \<and> \<not> list_ex (\<lambda>p. search vn_lib p
                    (norm_job_text vn_lib (PStr (asc ''Python Backend Engineer''))) \<noteq> None)
                  (snd (GROUP_RULES ! 0))
   \<and> job_group vn_lib (PStr (asc ''Python Backend Engineer'')) = ''backend_engineer''
   \<and> spec_fine_category vn_lib (asc ''Python Backend Engineer'') = ''backend_engineer''"
proof -
  let ?txt = "norm_job_text vn_lib (PStr (asc ''Python Backend Engineer''))"
  let ?P = "\<lambda>p. search vn_lib p ?txt \<noteq> None"
  note c = job_group_first_match [of vn_lib "asc ''Python Backend Engineer''"]
  have l: "1 < length GROUP_RULES" by (simp add: GROUP_RULES_def)
  have "bword ''backend'' \<in> set (snd (GROUP_RULES ! 1))" by (simp add: GROUP_RULES_def)
  with eval_backend_found have m: "list_ex ?P (snd (GROUP_RULES ! 1))"
    unfolding list_ex_iff eval_norm_pbe by blast
  have f: "\<forall>j < 1. \<not> list_ex ?P (snd (GROUP_RULES ! j))"
    using eval_fullstack_not_found unfolding eval_norm_pbe by simp
  have n: "fst (GROUP_RULES ! 1) = ''backend_engineer''" by (simp add: GROUP_RULES_def)
  have j: "job_group vn_lib (PStr (asc ''Python Backend Engineer'')) = fst (GROUP_RULES ! 1)"
    by (rule c[THEN conjunct2, THEN conjunct1, rule_format, OF l conjI[OF m f]])
  have s: "spec_fine_category vn_lib (asc ''Python Backend Engineer'')
             = job_group vn_lib (PStr (asc ''Python Backend Engineer''))"
    by (rule c[THEN conjunct1, symmetric])
  have z: "\<not> list_ex ?P (snd (GROUP_RULES ! 0))"
    using eval_fullstack_not_found unfolding eval_norm_pbe .
  from l m z show ?thesis unfolding s j n by (intro conjI) simp_all
qed

text \<open>
  Claim C6. For an address that is not blank, \<open>split_address_all_pairs\<close> returns half
  as many pairs as there are tokens, rounded down, and the pair of index \<open>k\<close> is made
  of the tokens of index \<open>2k\<close> and \<open>2k + 1\<close>, so that a last token without a partner is
  dropped; for a blank string and for a value that is no string it returns the empty
  list.
\<close>

theorem pairs_consumed_pairwise:
  "(strip U a \<noteq> [] \<longrightarrow>
      length (split_address_all_pairs U (PStr a)) = length (address_tokens U a) div 2
      \<and> (\<forall>k < length (address_tokens U a) div 2.
            split_address_all_pairs U (PStr a) ! k
              = make_pair U (address_tokens U a ! (2 * k)) (address_tokens U a ! (2 * k + 1))))
   \<and> (strip U a = [] \<longrightarrow> split_address_all_pairs U (PStr a) = [])
   \<and> ((\<forall>s. v \<noteq> PStr s) \<longrightarrow> split_address_all_pairs U v = [])"
proof (intro conjI impI allI)
  assume "\<forall>s. v \<noteq> PStr s"
  then show "split_address_all_pairs U v = []" by (rule split_non_string)
next
  assume "strip U a = []"
  then show "split_address_all_pairs U (PStr a) = []" by (rule split_blank)
next
  assume nb: "strip U a \<noteq> []"
  show "length (split_address_all_pairs U (PStr a)) = length (address_tokens U a) div 2"
    unfolding split_str[OF nb] pairs_loop_length by simp
next
  fix k
  assume nb: "strip U a \<noteq> []" and "k < length (address_tokens U a) div 2"
  then have "k < (length (address_tokens U a) - 0) div 2" by simp
  from pairs_loop_nth[OF this, of U]
  show "split_address_all_pairs U (PStr a) ! k
          = make_pair U (address_tokens U a ! (2 * k)) (address_tokens U a ! (2 * k + 1))"
    unfolding split_str[OF nb] by simp
qed

theorem pairs_consumed_pairwise_witness:
  "strip vn_lib (asc ''a,b,c'') \<noteq> []
   \<and> address_tokens vn_lib (asc ''a,b,c'') = [[97], [98], [99]]
   \<and> length (split_address_all_pairs vn_lib (PStr (asc ''a,b,c'')))
       = length (address_tokens vn_lib (asc ''a,b,c'')) div 2
   \<and> split_address_all_pairs vn_lib (PStr (asc ''a,b,c'')) = [make_pair vn_lib [97] [98]]
   \<and> strip vn_lib (asc ''  '') = []
   \<and> split_address_all_pairs vn_lib (PStr (asc ''  '')) = []
   \<and> (\<forall>s. PInt 3 \<noteq> PStr s)
   \<and> split_address_all_pairs vn_lib (PInt 3) = []"
proof -
  note a = pairs_consumed_pairwise [of vn_lib "asc ''a,b,c''" "PInt 3"]
  note b = pairs_consumed_pairwise [of vn_lib "asc ''  ''" "PInt 3"]
  have 1: "length (split_address_all_pairs vn_lib (PStr (asc ''a,b,c'')))
       = length (address_tokens vn_lib (asc ''a,b,c'')) div 2"
    using a[THEN conjunct1] eval_abc_tokens(1) by blast
  have 2: "split_address_all_pairs vn_lib (PStr (asc ''  '')) = []"
    using b[THEN conjunct2, THEN conjunct1] eval_blank by blast
  have 3: "\<forall>s. PInt 3 \<noteq> PStr s" by simp
  have 4: "split_address_all_pairs vn_lib (PInt 3) = []"
    using a[THEN conjunct2, THEN conjunct2] 3 by blast
  from 1 2 3 4 eval_abc_tokens eval_abc_pairs eval_blank show ?thesis by blast
qed


text \<open>
  Claim C7. For the address "H\u1ed3 Ch\u00ed Minh: Qu\u1eadn 10" the splitter returns one
  pair; its city is "TP. H\u1ed3 Ch\u00ed Minh" or "H\u1ed3 Ch\u00ed Minh" (it is the
  latter) and its district contains "Qu\u1eadn 10".
\<close>

theorem split_ho_chi_minh_quan_10:
  "\<exists>city district.
      split_address_all_pairs vn_lib
        (PStr [72, 7891, 32, 67, 104, 237, 32, 77, 105, 110, 104, 58, 32,
               81, 117, 7853, 110, 32, 49, 48])
        = [(Some city, Some district)]
      \<and> (city = [84, 80, 46, 32, 72, 7891, 32, 67, 104, 237, 32, 77, 105, 110, 104]
          \<or> city = [72, 7891, 32, 67, 104, 237, 32, 77, 105, 110, 104])
      \<and> contains [81, 117, 7853, 110, 32, 49, 48] district"
proof -
  have "contains [81, 117, 7853, 110, 32, 49, 48] quan_10"
    by (simp add: quan_10_def startswith_def)
  with eval_hcm_pairs show ?thesis
    unfolding hcm_q10_def by (intro exI[of _ ho_chi_minh] exI[of _ quan_10]) (simp add: ho_chi_minh_def)
qed


theorem split_ho_chi_minh_quan_10_witness:
  "length (split_address_all_pairs vn_lib
     (PStr [72, 7891, 32, 67, 104, 237, 32, 77, 105, 110, 104, 58, 32,
            81, 117, 7853, 110, 32, 49, 48])) = 1"
  using split_ho_chi_minh_quan_10 by auto

text \<open>
  Claim C10. In every pair that \<open>split_address_all_pairs\<close> returns, for every input,
  the city and the district are strings that are not empty: neither is \<open>None\<close>.
\<close>

theorem pairs_nonempty:
  "(c, d) \<in> set (split_address_all_pairs U addr) \<Longrightarrow>
     c \<noteq> None \<and> c \<noteq> Some [] \<and> d \<noteq> None \<and> d \<noteq> Some []"
proof -
  assume m: "(c, d) \<in> set (split_address_all_pairs U addr)"
  then obtain a where a: "addr = PStr a" "strip U a \<noteq> []"
    and p: "(c, d) \<in> set (pairs_loop U (address_tokens U a) 0)"
    by (cases addr) (auto simp: split_address_all_pairs_def split: if_splits)
  from pairs_loop_elems[OF p] obtain x y
    where xy: "x \<in> set (address_tokens U a)" "y \<in> set (address_tokens U a)"
      "(c, d) = make_pair U x y" by blast
  from make_pair_nonempty[OF address_tokens_clean[OF xy(1)] address_tokens_clean[OF xy(2)]] xy(3)
  show ?thesis by auto
qed

theorem pairs_nonempty_witness:
  "(Some ho_chi_minh, Some quan_10) \<in> set (split_address_all_pairs vn_lib (PStr hcm_q10))
   \<and> Some ho_chi_minh \<noteq> None \<and> Some ho_chi_minh \<noteq> Some []
   \<and> Some quan_10 \<noteq> None \<and> Some quan_10 \<noteq> Some []"
proof -
  have m: "(Some ho_chi_minh, Some quan_10) \<in> set (split_address_all_pairs vn_lib (PStr hcm_q10))"
    by (simp add: eval_hcm_pairs)
  from pairs_nonempty [OF m] m show ?thesis by blast
qed


end
